theory Spec2Isabelle
  imports Complex_Main "HOL-Library.Sublist" "HOL-Library.AList"
begin

section \<open>Strings\<close>

text \<open>
  A Python \<open>str\<close> is a sequence of Unicode code points, and \<open>len\<close> counts code points.
  A code point is modelled as a natural number and a \<open>str\<close> as a list of them.
  ASCII literals of the source are written through \<open>ustr\<close>.
\<close>

type_synonym ustr = "nat list"

definition ustr :: "string \<Rightarrow> ustr" where
  "ustr s = map of_char s"

section \<open>helpers.py: nodes\<close>

datatype NodeType = NT_text | NT_emoji | NT_discord_emoji

datatype Node = Node (type: NodeType) (content: ustr)

section \<open>helpers.py: EMOJI\_REGEX\<close>

text \<open>
  \<open>language_pack.values()\<close> comes from the table \<open>emoji.EMOJI_DATA\<close> of the \<open>emoji\<close>
  package, which is not part of the repository: the list of emoji sequences is a
  parameter \<open>pack\<close> of the model. \<open>sorted(..., key=len, reverse=True)\<close> is a stable sort
  on descending length.
\<close>

definition UNICODE_EMOJI_REGEX :: "ustr list \<Rightarrow> ustr list" where
  "UNICODE_EMOJI_REGEX pack = sort_key (\<lambda>e. - int (length e)) pack"

text \<open>
  An alternation of escaped literals matches, at a position, the first literal in the
  order of the alternation that is a prefix of the rest of the line. The table holds no
  empty sequence; an empty literal is never taken as a match here.
\<close>

definition unicode_match :: "ustr list \<Rightarrow> ustr \<Rightarrow> ustr option" where
  "unicode_match alts s = find (\<lambda>e. e \<noteq> [] \<and> prefix e s) alts"

text \<open>The character classes \<open>[a-zA-Z0-9_]\<close> and \<open>[0-9]\<close> of the Discord pattern.\<close>

definition is_digit :: "nat \<Rightarrow> bool" where
  "is_digit c \<longleftrightarrow> 48 \<le> c \<and> c \<le> 57"

definition is_name_char :: "nat \<Rightarrow> bool" where
  "is_name_char c \<longleftrightarrow> (97 \<le> c \<and> c \<le> 122) \<or> (65 \<le> c \<and> c \<le> 90) \<or> is_digit c \<or> c = 95"

text \<open>
  \<open><a?:[a-zA-Z0-9_]{1,32}:[0-9]{17,22}>\<close> at the start of \<open>s\<close>. Every repetition is
  followed by a character outside its class, so backtracking never finds a second way to
  match: the name is the whole run of name characters, the id the whole run of digits.
\<close>

definition discord_match :: "ustr \<Rightarrow> ustr option" where
  "discord_match s =
     (case s of [] \<Rightarrow> None | c # r \<Rightarrow>
        if c \<noteq> 60 then None
        else let (flag, r1) = (case r of [] \<Rightarrow> ([], r) | a # r' \<Rightarrow> if a = 97 then ([97], r') else ([], r))
          in (case r1 of [] \<Rightarrow> None | c1 # r2 \<Rightarrow>
            if c1 \<noteq> 58 then None
            else let name = takeWhile is_name_char r2; r3 = dropWhile is_name_char r2
              in if length name < 1 \<or> 32 < length name then None
                 else (case r3 of [] \<Rightarrow> None | c2 # r4 \<Rightarrow>
                   if c2 \<noteq> 58 then None
                   else let ds = takeWhile is_digit r4; r5 = dropWhile is_digit r4
                     in if length ds < 17 \<or> 22 < length ds then None
                        else (case r5 of [] \<Rightarrow> None | c3 # _ \<Rightarrow>
                          if c3 \<noteq> 62 then None
                          else Some ([60] @ flag @ [58] @ name @ [58] @ ds @ [62])))))"

text \<open>
  \<open>EMOJI_REGEX\<close> is the group \<open>(unicode alternatives | discord pattern)\<close>: the unicode
  alternatives are tried first, in their sorted order, then the Discord pattern.
\<close>

definition EMOJI_REGEX :: "ustr list \<Rightarrow> ustr \<Rightarrow> ustr option" where
  "EMOJI_REGEX pack s =
     (case unicode_match (UNICODE_EMOJI_REGEX pack) s of
        Some m \<Rightarrow> Some m
      | None \<Rightarrow> discord_match s)"

text \<open>
  \<open>EMOJI_REGEX.split(line)\<close>: the pattern has one capturing group, so the result
  alternates the text between matches (even indices) with the matched strings (odd
  indices). The scan goes left to right; \<open>acc\<close> is the text since the last match.
\<close>

fun re_split :: "ustr list \<Rightarrow> ustr \<Rightarrow> ustr \<Rightarrow> ustr list" where
  "re_split pack acc [] = [acc]"
| "re_split pack acc (c # cs) =
     (case EMOJI_REGEX pack (c # cs) of
        Some m \<Rightarrow> acc # m # re_split pack [] (drop (length m - 1) cs)
      | None \<Rightarrow> re_split pack (acc @ [c]) cs)"

section \<open>helpers.py: \_parse\_line and to\_nodes\<close>

text \<open>\<open>chunk.split(':')\<close>: the segments between the separators, at least one.\<close>

fun split_on :: "nat \<Rightarrow> ustr \<Rightarrow> ustr list" where
  "split_on d [] = [[]]"
| "split_on d (c # cs) =
     (if c = d then [] # split_on d cs
      else (case split_on d cs of [] \<Rightarrow> [[c]] | s # ss \<Rightarrow> (c # s) # ss))"

text \<open>The loop of \<open>_parse_line\<close> over \<open>enumerate(chunks)\<close>, from index \<open>i\<close>.\<close>

fun parse_chunks :: "nat \<Rightarrow> ustr list \<Rightarrow> Node list" where
  "parse_chunks i [] = []"
| "parse_chunks i (chunk # rest) =
     (if chunk = [] then parse_chunks (Suc i) rest
      else if i mod 2 = 0 then Node NT_text chunk # parse_chunks (Suc i) rest
      else if length chunk > 18
        then Node NT_discord_emoji (butlast (last (split_on 58 chunk))) # parse_chunks (Suc i) rest
        else Node NT_emoji chunk # parse_chunks (Suc i) rest)"

definition parse_line :: "ustr list \<Rightarrow> ustr \<Rightarrow> Node list" where
  "parse_line pack line = parse_chunks 0 (re_split pack [] line)"

text \<open>
  \<open>str.splitlines()\<close>: a line ends at \<open>\n\<close>, \<open>\r\<close>, \<open>\r\n\<close>, \<open>\v\<close>, \<open>\f\<close>, \<open>\x1c\<close>,
  \<open>\x1d\<close>, \<open>\x1e\<close>, \<open>\x85\<close>, U+2028 or U+2029; the line breaks are dropped, and
  there is no empty last line after a final line break.
\<close>

definition is_linebreak :: "nat \<Rightarrow> bool" where
  "is_linebreak c \<longleftrightarrow> c \<in> {10, 11, 12, 13, 28, 29, 30, 133, 8232, 8233}"

fun splitlines_from :: "ustr \<Rightarrow> ustr \<Rightarrow> ustr list" where
  "splitlines_from cur [] = (if cur = [] then [] else [cur])"
| "splitlines_from cur [c] =
     (if is_linebreak c then [cur] else [cur @ [c]])"
| "splitlines_from cur (c # d # cs) =
     (if c = 13 \<and> d = 10 then cur # splitlines_from [] cs
      else if is_linebreak c then cur # splitlines_from [] (d # cs)
      else splitlines_from (cur @ [c]) (d # cs))"

definition splitlines :: "ustr \<Rightarrow> ustr list" where
  "splitlines s = splitlines_from [] s"

definition to_nodes :: "ustr list \<Rightarrow> ustr \<Rightarrow> Node list list" where
  "to_nodes pack txt = map (parse_line pack) (splitlines txt)"

section \<open>Numbers\<close>

text \<open>
  A Python float is modelled by the rational it denotes. \<open>round(x)\<close> on a float rounds
  to the nearest integer and a tie to the even one; \<open>int(x)\<close> truncates towards zero;
  \<open>math.modf(x)[0]\<close> is the fractional part, with the sign of \<open>x\<close>.
\<close>

definition py_round :: "rat \<Rightarrow> int" where
  "py_round x =
     (let f = \<lfloor>x\<rfloor>; d = x - of_int f
      in if d < 1 / 2 then f else if 1 / 2 < d then f + 1 else if even f then f else f + 1)"

definition py_int :: "rat \<Rightarrow> int" where
  "py_int x = (if 0 \<le> x then \<lfloor>x\<rfloor> else \<lceil>x\<rceil>)"

definition modf_frac :: "rat \<Rightarrow> rat" where
  "modf_frac x = x - of_int (py_int x)"

text \<open>
  A float is an IEEE 754 double: a significand of 53 bits and an exponent from -1074 to
  971. The product and the quotient of two floats, and the conversion of an integer, are
  the exact result rounded to the nearest double, a tie to the even significand.
  \<open>pow2 e\<close> is \<open>2\<close> to the power \<open>e\<close>; \<open>find_exp n x 0\<close> is the binary exponent of
  a positive \<open>x\<close>, the \<open>k\<close> with \<open>pow2 k \<le> x < pow2 (k + 1)\<close>, found in at most \<open>n\<close>
  steps up or down; \<open>double_of x\<close> is the double nearest to \<open>x\<close>, or \<open>None\<close> when
  the rounded value is beyond the largest double, where the float is infinite.
\<close>

definition pow2 :: "int \<Rightarrow> rat" where
  "pow2 e = (if 0 \<le> e then 2 ^ nat e else 1 / 2 ^ nat (- e))"

fun find_exp :: "nat \<Rightarrow> rat \<Rightarrow> int \<Rightarrow> int" where
  "find_exp n x e =
     (if n = 0 then e
      else if x < pow2 e then find_exp (n - 1) x (e - 1)
      else if pow2 (e + 1) \<le> x then find_exp (n - 1) x (e + 1)
      else e)"

declare find_exp.simps [simp del]

definition double_of :: "rat \<Rightarrow> rat option" where
  "double_of x =
     (if x = 0 then Some 0
      else let e = max (find_exp 2200 \<bar>x\<bar> 0 - 52) (- 1074);
               y = of_int (py_round (x / pow2 e)) * pow2 e
        in if 2 ^ 1024 \<le> \<bar>y\<bar> then None else Some y)"

text \<open>\<open>str(n)\<close> for an integer: its decimal digits, with a sign when negative.\<close>

fun str_nat :: "nat \<Rightarrow> string" where
  "str_nat n = (if n < 10 then [char_of (48 + n)] else str_nat (n div 10) @ [char_of (48 + n mod 10)])"

declare str_nat.simps [simp del]

definition str_int :: "int \<Rightarrow> string" where
  "str_int i = (if i < 0 then CHR ''-'' # str_nat (nat (- i)) else str_nat (nat i))"

text \<open>
  \<open>int(s)\<close> on a string of ASCII digits. The tokenizer hands \<open>int\<close> only the digit run
  of a custom-emoji token; on any other string the model raises, as Python does on a
  string that is no integer literal.
\<close>

definition int_of_digits :: "ustr \<Rightarrow> int option" where
  "int_of_digits s =
     (if s \<noteq> [] \<and> list_all is_digit s
      then Some (foldl (\<lambda>acc c. acc * 10 + (int c - 48)) 0 s) else None)"

section \<open>Fonts and helpers.getsize\<close>

text \<open>
  The font and the raster backend are PIL objects outside the repository. A font is its
  nominal size with its measuring functions; \<open>layout\<close> holds the \<open>direction\<close>,
  \<open>features\<close> and \<open>language\<close> arguments that every measuring call passes on.
\<close>

record layout =
  direction :: "string option"
  features :: "string option"
  language :: "string option"

definition no_layout :: layout where
  "no_layout = \<lparr>direction = None, features = None, language = None\<rparr>"

record font =
  font_size :: int
  getlength :: "ustr \<Rightarrow> layout \<Rightarrow> rat"
  font_getsize :: "ustr \<Rightarrow> int \<times> int"

text \<open>
  The width of one node in \<open>getsize\<close>; \<open>ge_9_2_0\<close> is the outcome of the test on
  \<open>PIL.__version__\<close>.
\<close>

definition node_width :: "bool \<Rightarrow> font \<Rightarrow> rat \<Rightarrow> Node \<Rightarrow> int" where
  "node_width ge_9_2_0 f emoji_scale_factor node =
     (if type node \<noteq> NT_text then py_int (emoji_scale_factor * of_int (font_size f))
      else if ge_9_2_0 then py_int (getlength f (content node) no_layout)
      else fst (font_getsize f (content node)))"

fun getsize_line :: "bool \<Rightarrow> font \<Rightarrow> rat \<Rightarrow> Node list \<Rightarrow> int \<Rightarrow> int" where
  "getsize_line v f sc [] this_x = this_x"
| "getsize_line v f sc (node # line) this_x =
     getsize_line v f sc line (this_x + node_width v f sc node)"

fun getsize_lines :: "bool \<Rightarrow> font \<Rightarrow> int \<Rightarrow> rat \<Rightarrow> Node list list \<Rightarrow> int \<times> int \<Rightarrow> int \<times> int" where
  "getsize_lines v f spacing sc [] (x, y) = (x, y)"
| "getsize_lines v f spacing sc (line # nodes) (x, y) =
     (let this_x = getsize_line v f sc line 0;
          y' = y + (spacing + font_size f)
      in getsize_lines v f spacing sc nodes (if this_x > x then this_x else x, y'))"

definition getsize :: "ustr list \<Rightarrow> bool \<Rightarrow> font \<Rightarrow> ustr \<Rightarrow> font option \<Rightarrow> int \<Rightarrow> rat \<Rightarrow> int \<times> int" where
  "getsize pack ge_9_2_0 load_default txt fnt spacing emoji_scale_factor =
     (let f = (case fnt of None \<Rightarrow> load_default | Some f \<Rightarrow> f);
          (x, y) = getsize_lines ge_9_2_0 f spacing emoji_scale_factor (to_nodes pack txt) (0, 0)
      in (x, y - spacing))"

section \<open>Errors, streams and the session state\<close>

datatype error =
    ValueError string
  | TypeError string
  | AssertionError
  | AttributeError
  | ZeroDivisionError
  | OverflowError
  | ClientError
  | TimeoutError
  | RuntimeError
  | UnidentifiedImageError

text \<open>
  A \<open>BytesIO\<close> is a mutable object: its bytes, its read position and whether it has been
  closed. Objects live in a store and are referred to by address, so that two references
  to one object share its read position.
\<close>

record BytesIO =
  buf :: "nat list"
  pos :: nat
  stream_closed :: bool

text \<open>What the network answers to a GET: a success status with a body, or a failure.\<close>

datatype response = Ok "nat list" | BadStatus nat | Timeout | TransportFault

text \<open>
  A source of the \<open>EmojiCDNSource\<close> family: its class name, its \<open>STYLE\<close> and whether
  \<open>_session\<close> has been set. \<open>CachedHTTPBasedSource\<close> wraps one.
\<close>

record EmojiCDNSource =
  class_name :: string
  STYLE :: "string option"
  has_session :: bool

datatype source = HTTPBased EmojiCDNSource | CachedHTTPBased EmojiCDNSource

datatype draw_op =
    DrawText "rat \<times> rat" ustr int
  | Paste "nat list" "int \<times> int" "int \<times> int"

text \<open>
  The state of one \<open>PilmojiMain\<close> with what it acts on: the store of streams, the files
  of the cache directory, the requests sent, and the canvas as the list of drawing
  operations applied to it. The attribute names of \<open>PilmojiMain\<close> lose their leading
  underscore. The memory caches are dictionaries in insertion order.
\<close>

record state =
  heap :: "nat \<Rightarrow> BytesIO"
  next_addr :: nat
  files :: "string \<rightharpoonup> nat list"
  requests :: "string list"
  canvas :: "draw_op list"
  session_closed :: bool
  source :: source
  cache :: bool
  closed :: bool
  new_draw :: bool
  render_discord_emoji :: bool
  default_emoji_scale_factor :: rat
  default_emoji_position_offset :: "int \<times> int"
  emoji_cache :: "(ustr \<times> nat) list"
  discord_emoji_cache :: "(int \<times> nat) list"

text \<open>
  The PIL objects of a draw call, with the font passed where the source passes it:
  \<open>textbbox_bottom f w\<close> is \<open>draw.textbbox((0, 0), "A", f, stroke_width=w)[3]\<close>;
  \<open>textlength s f l e\<close> is \<open>draw.textlength(s, f, ..., embedded_color=e)\<close>;
  \<open>getink\<close> is \<open>draw._getink\<close>; \<open>getmask2_offset\<close> is the offset returned by
  \<open>font.getmask2\<close>, or \<open>None\<close> when the font has no such method; \<open>image_open\<close> gives
  the width and height of the decoded image, or \<open>None\<close> when the bytes are no image.
\<close>

record pil =
  version_ge_9_2_0 :: bool
  load_default :: font
  textbbox_bottom :: "font \<Rightarrow> int \<Rightarrow> rat"
  textlength :: "ustr \<Rightarrow> font \<Rightarrow> layout \<Rightarrow> bool \<Rightarrow> rat"
  fontmode :: string
  getink :: "nat option \<Rightarrow> nat option \<times> nat option"
  getmask2_offset :: "font \<Rightarrow> ustr \<Rightarrow> string \<Rightarrow> layout \<Rightarrow> int \<Rightarrow> string \<Rightarrow> nat \<Rightarrow> rat \<times> rat \<Rightarrow> (int \<times> int) option"
  image_open :: "nat list \<Rightarrow> (int \<times> int) option"

text \<open>
  What lies outside the repository: the emoji table, the network, \<open>quote_plus\<close>,
  \<open>hashlib.sha256(s.encode('utf-8')).hexdigest()\<close>, the absolute path \<open>CACHE_DIR\<close> and
  PIL.
\<close>

record env =
  pack :: "ustr list"
  net :: "string \<Rightarrow> response"
  quote_plus :: "ustr \<Rightarrow> string"
  sha256_hexdigest :: "ustr \<Rightarrow> string"
  CACHE_DIR :: string
  PIL :: pil

type_synonym 'a result = "(error + 'a) \<times> state"

subsection \<open>io.BytesIO\<close>

definition BytesIO_new :: "nat list \<Rightarrow> state \<Rightarrow> nat \<times> state" where
  "BytesIO_new bs st =
     (next_addr st,
      st\<lparr>heap := (heap st)(next_addr st := \<lparr>buf = bs, pos = 0, stream_closed = False\<rparr>),
         next_addr := Suc (next_addr st)\<rparr>)"

definition seek0 :: "nat \<Rightarrow> state \<Rightarrow> unit result" where
  "seek0 a st =
     (if stream_closed (heap st a) then (Inl (ValueError ''I/O operation on closed file.''), st)
      else (Inr (), st\<lparr>heap := (heap st)(a := (heap st a)\<lparr>pos := 0\<rparr>)\<rparr>))"

definition read_all :: "nat \<Rightarrow> state \<Rightarrow> (nat list) result" where
  "read_all a st =
     (if stream_closed (heap st a) then (Inl (ValueError ''I/O operation on closed file.''), st)
      else (Inr (drop (pos (heap st a)) (buf (heap st a))),
            st\<lparr>heap := (heap st)(a := (heap st a)\<lparr>pos := max (pos (heap st a)) (length (buf (heap st a)))\<rparr>)\<rparr>))"

definition stream_close :: "nat \<Rightarrow> state \<Rightarrow> state" where
  "stream_close a st = st\<lparr>heap := (heap st)(a := (heap st a)\<lparr>stream_closed := True\<rparr>)\<rparr>"

section \<open>source.py\<close>

definition BASE_DISCORD_EMOJI_URL :: string where
  "BASE_DISCORD_EMOJI_URL = ''https://cdn.discordapp.com/emojis/''"

definition BASE_EMOJI_CDN_URL :: string where
  "BASE_EMOJI_CDN_URL = ''https://emojicdn.elk.sh/''"

text \<open>
  \<open>HTTPBasedSource.request\<close>: the assertion on \<open>_session\<close>, then one GET. A response
  that is not \<open>ok\<close> raises \<open>aiohttp.ClientError\<close>; a transport fault raises a
  \<open>ClientError\<close> inside \<open>get\<close>, the expiry of the timeout a \<open>TimeoutError\<close>; a closed
  client session a \<open>RuntimeError\<close>.
\<close>

definition request :: "env \<Rightarrow> EmojiCDNSource \<Rightarrow> string \<Rightarrow> state \<Rightarrow> nat result" where
  "request ev src url st =
     (if \<not> has_session src then (Inl AssertionError, st)
      else if session_closed st then (Inl RuntimeError, st)
      else let st1 = st\<lparr>requests := requests st @ [url]\<rparr>
        in (case net ev url of
              Ok body \<Rightarrow> (let (a, st2) = BytesIO_new body st1 in (Inr a, st2))
            | BadStatus code \<Rightarrow> (Inl ClientError, st1)
            | Timeout \<Rightarrow> (Inl TimeoutError, st1)
            | TransportFault \<Rightarrow> (Inl ClientError, st1)))"

text \<open>
  \<open>DiscordEmojiSourceMixin.get_discord_emoji\<close> and \<open>EmojiCDNSource.get_emoji\<close>: the
  \<open>except aiohttp.ClientError\<close> clause logs and raises the error again, so the result of
  \<open>request\<close> is the result of the method.
\<close>

definition Mixin_get_discord_emoji :: "env \<Rightarrow> EmojiCDNSource \<Rightarrow> int \<Rightarrow> state \<Rightarrow> (nat option) result" where
  "Mixin_get_discord_emoji ev src i st =
     (let url = BASE_DISCORD_EMOJI_URL @ str_int i @ ''.png''
      in (case request ev src url st of
            (Inl e, st') \<Rightarrow> (Inl e, st')
          | (Inr a, st') \<Rightarrow> (Inr (Some a), st')))"

definition CDN_get_emoji :: "env \<Rightarrow> EmojiCDNSource \<Rightarrow> ustr \<Rightarrow> state \<Rightarrow> (nat option) result" where
  "CDN_get_emoji ev src em st =
     (case STYLE src of
        None \<Rightarrow> (Inl (TypeError ''STYLE class variable unfilled.''), st)
      | Some style \<Rightarrow>
          (let url = BASE_EMOJI_CDN_URL @ quote_plus ev em @ ''?style='' @ quote_plus ev (ustr style)
           in (case request ev src url st of
                 (Inl e, st') \<Rightarrow> (Inl e, st')
               | (Inr a, st') \<Rightarrow> (Inr (Some a), st'))))"

subsection \<open>CachedHTTPBasedSource\<close>

definition emoji_cache_path :: "env \<Rightarrow> EmojiCDNSource \<Rightarrow> ustr \<Rightarrow> string" where
  "emoji_cache_path ev src em =
     (let key = sha256_hexdigest ev em
      in CACHE_DIR ev @ ''/'' @ (class_name src @ ''_'' @ key @ ''.png''))"

definition discord_cache_path :: "env \<Rightarrow> int \<Rightarrow> string" where
  "discord_cache_path ev i = CACHE_DIR ev @ ''/'' @ (''discord_'' @ str_int i @ ''.png'')"

text \<open>
  The body shared by \<open>get_emoji\<close> and \<open>get_discord_emoji\<close> of the wrapper, for the
  cache path and the call of the wrapped source.
\<close>

definition cached_get :: "string \<Rightarrow> (state \<Rightarrow> (nat option) result) \<Rightarrow> state \<Rightarrow> (nat option) result" where
  "cached_get path fetch st =
     (case files st path of
        Some bs \<Rightarrow> (let (a, st1) = BytesIO_new bs st in (Inr (Some a), st1))
      | None \<Rightarrow>
          (case fetch st of
             (Inl e, st1) \<Rightarrow> (Inl e, st1)
           | (Inr None, st1) \<Rightarrow> (Inr None, st1)
           | (Inr (Some a), st1) \<Rightarrow>
               (case read_all a st1 of
                  (Inl e, st2) \<Rightarrow> (Inl e, st2)
                | (Inr bs, st2) \<Rightarrow>
                    (let st3 = st2\<lparr>files := (files st2)(path \<mapsto> bs)\<rparr>
                     in (case seek0 a st3 of
                           (Inl e, st4) \<Rightarrow> (Inl e, st4)
                         | (Inr _, st4) \<Rightarrow> (Inr (Some a), st4))))))"

definition Cached_get_emoji :: "env \<Rightarrow> EmojiCDNSource \<Rightarrow> ustr \<Rightarrow> state \<Rightarrow> (nat option) result" where
  "Cached_get_emoji ev src em st = cached_get (emoji_cache_path ev src em) (CDN_get_emoji ev src em) st"

definition Cached_get_discord_emoji :: "env \<Rightarrow> EmojiCDNSource \<Rightarrow> int \<Rightarrow> state \<Rightarrow> (nat option) result" where
  "Cached_get_discord_emoji ev src i st =
     cached_get (discord_cache_path ev i) (Mixin_get_discord_emoji ev src i) st"

text \<open>The call \<open>self.source.get_emoji\<close>, by the class of the source.\<close>

definition source_get_emoji :: "env \<Rightarrow> ustr \<Rightarrow> state \<Rightarrow> (nat option) result" where
  "source_get_emoji ev em st =
     (case source st of
        HTTPBased src \<Rightarrow> CDN_get_emoji ev src em st
      | CachedHTTPBased src \<Rightarrow> Cached_get_emoji ev src em st)"

definition source_get_discord_emoji :: "env \<Rightarrow> int \<Rightarrow> state \<Rightarrow> (nat option) result" where
  "source_get_discord_emoji ev i st =
     (case source st of
        HTTPBased src \<Rightarrow> Mixin_get_discord_emoji ev src i st
      | CachedHTTPBased src \<Rightarrow> Cached_get_discord_emoji ev src i st)"

section \<open>core.py: PilmojiMain\<close>

definition get_emoji :: "env \<Rightarrow> ustr \<Rightarrow> state \<Rightarrow> (nat option) result" where
  "get_emoji ev em st =
     (case (if cache st then map_of (emoji_cache st) em else None) of
        Some entry \<Rightarrow>
          (case seek0 entry st of
             (Inl e, st1) \<Rightarrow> (Inl e, st1)
           | (Inr _, st1) \<Rightarrow> (Inr (Some entry), st1))
      | None \<Rightarrow>
          (case source_get_emoji ev em st of
             (Inl e, st1) \<Rightarrow> (Inl e, st1)
           | (Inr None, st1) \<Rightarrow> (Inr None, st1)
           | (Inr (Some stream), st1) \<Rightarrow>
               (let st2 = (if cache st1
                           then st1\<lparr>emoji_cache := AList.update em stream (emoji_cache st1)\<rparr>
                           else st1)
                in (case seek0 stream st2 of
                      (Inl e, st3) \<Rightarrow> (Inl e, st3)
                    | (Inr _, st3) \<Rightarrow> (Inr (Some stream), st3)))))"

definition get_discord_emoji :: "env \<Rightarrow> ustr \<Rightarrow> state \<Rightarrow> (nat option) result" where
  "get_discord_emoji ev id_str st =
     (case int_of_digits id_str of
        None \<Rightarrow> (Inl (ValueError ''invalid literal for int()''), st)
      | Some i \<Rightarrow>
       (case (if cache st then map_of (discord_emoji_cache st) i else None) of
          Some entry \<Rightarrow>
            (case seek0 entry st of
               (Inl e, st1) \<Rightarrow> (Inl e, st1)
             | (Inr _, st1) \<Rightarrow> (Inr (Some entry), st1))
        | None \<Rightarrow>
            (case source_get_discord_emoji ev i st of
               (Inl e, st1) \<Rightarrow> (Inl e, st1)
             | (Inr None, st1) \<Rightarrow> (Inr None, st1)
             | (Inr (Some stream), st1) \<Rightarrow>
                 (let st2 = (if cache st1
                             then st1\<lparr>discord_emoji_cache := AList.update i stream (discord_emoji_cache st1)\<rparr>
                             else st1)
                  in (case seek0 stream st2 of
                        (Inl e, st3) \<Rightarrow> (Inl e, st3)
                      | (Inr _, st3) \<Rightarrow> (Inr (Some stream), st3))))))"

text \<open>
  \<open>close\<close>. \<open>PilmojiMain\<close> never has an attribute \<open>draw\<close>, so \<open>del self.draw\<close> raises
  when \<open>_new_draw\<close> is set; \<open>self.source._session\<close> is \<open>None\<close> until \<open>__aenter__\<close> sets
  it, and \<open>None.close()\<close> raises.
\<close>

definition source_has_session :: "source \<Rightarrow> bool" where
  "source_has_session s = (case s of HTTPBased src \<Rightarrow> has_session src | CachedHTTPBased src \<Rightarrow> has_session src)"

definition close_streams :: "nat list \<Rightarrow> state \<Rightarrow> state" where
  "close_streams as st = foldl (\<lambda>s a. stream_close a s) st as"

definition close :: "state \<Rightarrow> unit result" where
  "close st =
     (if closed st then (Inl (ValueError ''Renderer has already been closed.''), st)
      else if new_draw st then (Inl AttributeError, st)
      else if \<not> source_has_session (source st) then (Inl AttributeError, st)
      else let st1 = st\<lparr>session_closed := True\<rparr>;
               st2 = (if cache st1
                      then (close_streams (map snd (discord_emoji_cache st1))
                             (close_streams (map snd (emoji_cache st1)) st1))
                             \<lparr>emoji_cache := [], discord_emoji_cache := []\<rparr>
                      else st1)
        in (Inr (), st2\<lparr>closed := True\<rparr>))"

text \<open>
  \<open>__init__\<close> with a source class of the \<open>EmojiCDNSource\<close> family, in a world whose
  cache directory holds the files \<open>disk\<close>, and \<open>__aenter__\<close>, which hands the client
  session to the source and wraps it into the caching source.
\<close>

definition init :: "(string \<rightharpoonup> nat list) \<Rightarrow> string \<Rightarrow> string option \<Rightarrow> bool \<Rightarrow> bool \<Rightarrow> rat \<Rightarrow> int \<times> int \<Rightarrow> state" where
  "init disk cls style cache_arg render_arg scale offs =
     \<lparr>heap = (\<lambda>_. \<lparr>buf = [], pos = 0, stream_closed = False\<rparr>), next_addr = 0,
      files = disk, requests = [], canvas = [], session_closed = False,
      source = HTTPBased \<lparr>class_name = cls, STYLE = style, has_session = False\<rparr>,
      cache = cache_arg, closed = False, new_draw = False,
      render_discord_emoji = render_arg, default_emoji_scale_factor = scale,
      default_emoji_position_offset = offs, emoji_cache = [], discord_emoji_cache = []\<rparr>"

definition aenter :: "state \<Rightarrow> state" where
  "aenter st =
     (case source st of
        HTTPBased src \<Rightarrow> st\<lparr>source := CachedHTTPBased (src\<lparr>has_session := True\<rparr>)\<rparr>
      | CachedHTTPBased src \<Rightarrow> st)"

section \<open>core.py: PilmojiDrawer.text\<close>

record text_args =
  xy :: "int \<times> int"
  text_str :: ustr
  fill :: "nat option"
  fnt :: "font option"
  anchor :: "string option"
  spacing :: int
  node_spacing :: int
  align :: string
  lay :: layout
  stroke_width :: int
  stroke_fill :: "nat option"
  embedded_color :: bool
  emoji_scale_factor :: "rat option"
  emoji_position_offset :: "(int \<times> int) option"

text \<open>The tests on \<open>anchor\<close> at the head of \<open>text\<close>; the result is the anchor in use.\<close>

definition check_anchor :: "string option \<Rightarrow> ustr \<Rightarrow> error + string" where
  "check_anchor anc t =
     (case anc of
        None \<Rightarrow> Inr ''la''
      | Some an \<Rightarrow>
          if length an \<noteq> 2 then Inl (ValueError ''anchor must be a 2 character string'')
          else if an ! 1 \<in> set ''tb'' \<and> 10 \<in> set t
            then Inl (ValueError ''anchor not supported for multiline text'')
          else Inr an)"

definition getink_of :: "pil \<Rightarrow> nat option \<Rightarrow> nat option" where
  "getink_of p fl = (case getink p fl of (None, fl') \<Rightarrow> fl' | (Some ink, _) \<Rightarrow> Some ink)"

text \<open>
  \<open>process_line\<close> fetches the asset of one node. \<open>asyncio.gather\<close> starts the nodes of a
  line in order and raises the first error; the model runs them one after the other.
\<close>

definition process_line :: "env \<Rightarrow> Node \<Rightarrow> state \<Rightarrow> (nat option) result" where
  "process_line ev node st =
     (if type node = NT_emoji then get_emoji ev (content node) st
      else if render_discord_emoji st \<and> type node = NT_discord_emoji
        then get_discord_emoji ev (content node) st
      else (Inr None, st))"

fun gather :: "env \<Rightarrow> Node list \<Rightarrow> state \<Rightarrow> (nat option list) result" where
  "gather ev [] st = (Inr [], st)"
| "gather ev (node # line) st =
     (case process_line ev node st of
        (Inl e, st1) \<Rightarrow> (Inl e, st1)
      | (Inr stream, st1) \<Rightarrow>
          (case gather ev line st1 of
             (Inl e, st2) \<Rightarrow> (Inl e, st2)
           | (Inr streams, st2) \<Rightarrow> (Inr (stream # streams), st2)))"

text \<open>
  The float arithmetic of \<open>text\<close>. An integer operand of a float operation is converted
  first, and an integer too large for a float raises \<open>OverflowError\<close>; so does \<open>round\<close>
  on an infinite float. \<open>emoji_width\<close> is \<open>round(emoji_scale_factor * font.size)\<close> and
  \<open>space_to_had n\<close> is \<open>round(size / space_text_lenght)\<close> for the \<open>size\<close> \<open>n\<close>.
\<close>

definition float_of_int :: "int \<Rightarrow> error + rat" where
  "float_of_int n = (case double_of (of_int n) of None \<Rightarrow> Inl OverflowError | Some x \<Rightarrow> Inr x)"

definition round_float :: "rat option \<Rightarrow> error + int" where
  "round_float r = (case r of None \<Rightarrow> Inl OverflowError | Some x \<Rightarrow> Inr (py_round x))"

definition emoji_width :: "rat \<Rightarrow> int \<Rightarrow> error + int" where
  "emoji_width sc fsize =
     (case float_of_int fsize of
        Inl e \<Rightarrow> Inl e
      | Inr fz \<Rightarrow> round_float (double_of (sc * fz)))"

definition space_to_had :: "int \<Rightarrow> rat \<Rightarrow> error + int" where
  "space_to_had n space_text_lenght =
     (case float_of_int n of
        Inl e \<Rightarrow> Inl e
      | Inr sz \<Rightarrow>
          if space_text_lenght = 0 then Inl ZeroDivisionError
          else round_float (double_of (sz / space_text_lenght)))"

text \<open>
  The loop over \<open>streams_processed\<close> that builds \<open>text_line\<close>: the content of a text
  node or of a node without asset, a run of spaces for a node with its asset.
\<close>

fun text_line :: "rat \<Rightarrow> int \<Rightarrow> int \<times> int \<Rightarrow> int \<Rightarrow> rat \<Rightarrow> (Node \<times> nat option) list \<Rightarrow> ustr \<Rightarrow> error + ustr" where
  "text_line sc fsize offs nsp space_text_lenght [] acc = Inr acc"
| "text_line sc fsize offs nsp space_text_lenght ((node, stream) # rest) acc =
     (if type node = NT_text \<or> stream = None
      then text_line sc fsize offs nsp space_text_lenght rest (acc @ content node)
      else (case emoji_width sc fsize of
              Inl e \<Rightarrow> Inl e
            | Inr width \<Rightarrow>
                (let (ox, oy) = offs;
                     size = py_round (of_int (width + ox + nsp * 2))
                 in (case space_to_had size space_text_lenght of
                       Inl e \<Rightarrow> Inl e
                     | Inr n \<Rightarrow>
                         text_line sc fsize offs nsp space_text_lenght rest
                           (acc @ replicate (nat n) 32)))))"

text \<open>
  The first loop over the lines: fetch, build the line to print, measure it. Each line
  yields its streams, its \<open>text_line\<close> and its width.
\<close>

fun layout_lines :: "env \<Rightarrow> font \<Rightarrow> text_args \<Rightarrow> rat \<Rightarrow> int \<times> int \<Rightarrow> rat \<Rightarrow> Node list list \<Rightarrow> state
    \<Rightarrow> ((nat option list \<times> ustr \<times> rat) list) result" where
  "layout_lines ev f a sc offs sp [] st = (Inr [], st)"
| "layout_lines ev f a sc offs sp (line # nodes) st =
     (case gather ev line st of
        (Inl e, st1) \<Rightarrow> (Inl e, st1)
      | (Inr streams, st1) \<Rightarrow>
          (case text_line sc (font_size f) offs (node_spacing a) sp (zip line streams) [] of
             Inl e \<Rightarrow> (Inl e, st1)
           | Inr tline \<Rightarrow>
               (let line_width = textlength (PIL ev) tline f (lay a) False
                in (case layout_lines ev f a sc offs sp nodes st1 of
                      (Inl e, st2) \<Rightarrow> (Inl e, st2)
                    | (Inr ls, st2) \<Rightarrow> (Inr ((streams, tline, line_width) # ls), st2)))))"

text \<open>The horizontal position of a line: by the anchor first, then by \<open>align\<close>.\<close>

definition align_x :: "string \<Rightarrow> string \<Rightarrow> rat \<Rightarrow> rat \<Rightarrow> error + rat" where
  \<open>align_x anc al original_x width_difference =
     (let x = original_x;
          x = (if anc ! 0 = CHR ''m'' then x - width_difference / 2
               else if anc ! 0 = CHR ''r'' then x - width_difference
               else x)
      in if al = ''left'' then Inr x
         else if al = ''center'' then Inr (x + width_difference / 2)
         else if al = ''right'' then Inr (x + width_difference)
         else Inl (ValueError ''align must be "left", "center" or "right"''))\<close>

text \<open>
  The loop over the nodes of a drawn line: the cursor moves over a text node or a node
  without asset by its measured width; an asset is decoded, resized and pasted.
  Decoding reads the stream from its start to its end.
\<close>

fun paste_nodes :: "env \<Rightarrow> font \<Rightarrow> text_args \<Rightarrow> rat \<Rightarrow> int \<times> int \<Rightarrow> (Node \<times> nat option) list
    \<Rightarrow> rat \<Rightarrow> rat \<Rightarrow> state \<Rightarrow> unit result" where
  "paste_nodes ev f a sc offs [] x line_y st = (Inr (), st)"
| "paste_nodes ev f a sc offs ((node, stream) # rest) x line_y st =
     (case (if type node = NT_text then None else stream) of
        None \<Rightarrow>
          (let width = (if version_ge_9_2_0 (PIL ev)
                        then py_int (getlength f (content node) (lay a))
                        else fst (font_getsize f (content node)))
           in paste_nodes ev f a sc offs rest (x + of_int (node_spacing a + width)) line_y st)
      | Some s \<Rightarrow>
          (case seek0 s st of
             (Inl e, st1) \<Rightarrow> (Inl e, st1)
           | (Inr _, st1) \<Rightarrow>
               (case read_all s st1 of
                  (Inl e, st2) \<Rightarrow> (Inl e, st2)
                | (Inr bs, st2) \<Rightarrow>
                    (case image_open (PIL ev) bs of
                       None \<Rightarrow> (Inl UnidentifiedImageError, st2)
                     | Some (aw, ah) \<Rightarrow>
                         (case emoji_width sc (font_size f) of
                            Inl e \<Rightarrow> (Inl e, st2)
                          | Inr width \<Rightarrow>
                              if aw = 0 then (Inl ZeroDivisionError, st2)
                              else let size = (width, \<lceil>rat_of_int ah / rat_of_int aw * rat_of_int width\<rceil>)
                                in if fst size \<le> 0 \<or> snd size \<le> 0
                                   then (Inl (ValueError ''height and width must be > 0''), st2)
                                   else let (ox, oy) = offs;
                                            box = (py_round (x + of_int ox), py_round (line_y + of_int oy));
                                            st3 = st2\<lparr>canvas := canvas st2 @ [Paste bs size box]\<rparr>
                                     in paste_nodes ev f a sc offs rest
                                          (x + of_int (node_spacing a + width)) line_y st3)))))"

text \<open>
  One turn of the second loop over the lines. The loop carries \<open>y\<close>, \<open>ink\<close> and
  \<open>stroke_width\<close>, which the body reassigns.
\<close>

definition draw_line :: "env \<Rightarrow> font \<Rightarrow> text_args \<Rightarrow> string \<Rightarrow> string \<Rightarrow> rat \<Rightarrow> int \<times> int \<Rightarrow> rat \<Rightarrow> rat
    \<Rightarrow> Node list \<times> nat option list \<times> ustr \<times> rat \<Rightarrow> rat \<times> nat option \<times> int \<Rightarrow> state
    \<Rightarrow> (rat \<times> nat option \<times> int) result" where
  "draw_line ev f a anc mode sc offs line_spacing max_width entry carried st =
     (case entry of (line, streams, tline, w) \<Rightarrow>
      (case carried of (y, ink, sw) \<Rightarrow>
       (let original_x = rat_of_int (fst (xy a));
            line_y = y;
            width_difference = max_width - w
        in (case align_x anc (align a) original_x width_difference of
              Inl e \<Rightarrow> (Inl e, st)
            | Inr x \<Rightarrow>
               (let st1 = (if length tline > 0
                           then st\<lparr>canvas := canvas st @ [DrawText (x, line_y) tline sw]\<rparr>
                           else st);
                    coord = (py_int x, py_int y);
                    start = (modf_frac x, modf_frac y);
                    (x', line_y', ink', sw') =
                      (case ink of
                         None \<Rightarrow> (x, line_y, ink, sw)
                       | Some i \<Rightarrow>
                           (let stroke_ink = (if sw \<noteq> 0
                                              then (case stroke_fill a of
                                                      Some sf \<Rightarrow> getink_of (PIL ev) (Some sf)
                                                    | None \<Rightarrow> ink)
                                              else None);
                                (i2, sw2) = (case stroke_ink of Some si \<Rightarrow> (si, 0) | None \<Rightarrow> (i, sw));
                                coord2 = (case getmask2_offset (PIL ev) f tline mode (lay a) sw2 anc i2 start of
                                            Some off \<Rightarrow> (fst coord + fst off, snd coord + snd off)
                                          | None \<Rightarrow> coord)
                            in (rat_of_int (fst coord2), rat_of_int (snd coord2), Some i2, sw2)))
                in (case paste_nodes ev f a sc offs (zip line streams) x' line_y' st1 of
                      (Inl e, st2) \<Rightarrow> (Inl e, st2)
                    | (Inr _, st2) \<Rightarrow> (Inr (y + line_spacing, ink', sw'), st2)))))))"

fun draw_lines :: "env \<Rightarrow> font \<Rightarrow> text_args \<Rightarrow> string \<Rightarrow> string \<Rightarrow> rat \<Rightarrow> int \<times> int \<Rightarrow> rat \<Rightarrow> rat
    \<Rightarrow> (Node list \<times> nat option list \<times> ustr \<times> rat) list \<Rightarrow> rat \<times> nat option \<times> int \<Rightarrow> state
    \<Rightarrow> unit result" where
  "draw_lines ev f a anc mode sc offs line_spacing max_width [] carried st = (Inr (), st)"
| "draw_lines ev f a anc mode sc offs line_spacing max_width (entry # entries) carried st =
     (case draw_line ev f a anc mode sc offs line_spacing max_width entry carried st of
        (Inl e, st1) \<Rightarrow> (Inl e, st1)
      | (Inr carried1, st1) \<Rightarrow>
          draw_lines ev f a anc mode sc offs line_spacing max_width entries carried1 st1)"

definition multiline_spacing :: "pil \<Rightarrow> font \<Rightarrow> int \<Rightarrow> int \<Rightarrow> rat" where
  "multiline_spacing p f spc sw = textbbox_bottom p f sw + of_int sw + of_int spc"

definition PilmojiDrawer_text :: "env \<Rightarrow> text_args \<Rightarrow> state \<Rightarrow> unit result" where
  "PilmojiDrawer_text ev a st =
     (let sc = (case emoji_scale_factor a of None \<Rightarrow> default_emoji_scale_factor st | Some s \<Rightarrow> s);
          offs = (case emoji_position_offset a of None \<Rightarrow> default_emoji_position_offset st | Some p \<Rightarrow> p);
          f = (case fnt a of None \<Rightarrow> load_default (PIL ev) | Some f \<Rightarrow> f)
      in (case check_anchor (anchor a) (text_str a) of
            Inl e \<Rightarrow> (Inl e, st)
          | Inr anc \<Rightarrow>
              if direction (lay a) = Some ''ttb'' \<and> 10 \<in> set (text_str a)
              then (Inl (ValueError ''ttb direction is unsupported for multiline text''), st)
              else let y = rat_of_int (snd (xy a));
                       nodes = to_nodes (pack ev) (text_str a);
                       line_spacing = multiline_spacing (PIL ev) f (spacing a) (stroke_width a);
                       mode = (if stroke_width a = 0 \<and> embedded_color a then ''RGBA'' else fontmode (PIL ev));
                       ink = getink_of (PIL ev) (fill a);
                       space_text_lenght = textlength (PIL ev) [32] f (lay a) (embedded_color a)
                in (case layout_lines ev f a sc offs space_text_lenght nodes st of
                      (Inl e, st1) \<Rightarrow> (Inl e, st1)
                    | (Inr ls, st1) \<Rightarrow>
                        (let max_width = foldl max 0 (map (\<lambda>(streams, tline, w). w) ls);
                             n = rat_of_int (int (length nodes) - 1);
                             y = (if anc ! 1 = CHR ''m'' then y - n * line_spacing / 2
                                  else if anc ! 1 = CHR ''d'' then y - n * line_spacing
                                  else y)
                         in draw_lines ev f a anc mode sc offs line_spacing max_width
                              (zip nodes ls) (y, ink, stroke_width a) st1))))"

section \<open>Formulas and notions of the specification\<close>

text \<open>
  The number of spaces that stand for an emoji, as the specification computes it: one
  rounding of \<open>scale_factor \<times> font_size + offset_x + 2 \<times> node_spacing\<close>, then the
  rounded quotient by the width of a space.
\<close>

definition spec_space_count :: "rat \<Rightarrow> int \<Rightarrow> int \<Rightarrow> int \<Rightarrow> rat \<Rightarrow> int" where
  "spec_space_count s f ox ns w =
     py_round (of_int (py_round (s * of_int f + of_int ox + 2 * of_int ns)) / w)"

text \<open>
  The custom-emoji wire token \<open><\<close> [\<open>a\<close>] \<open>:\<close> name \<open>:\<close> id \<open>>\<close> and the condition on its parts:
  the name is 1 to 32 characters of \<open>[A-Za-z0-9_]\<close>, the id 17 to 22 digits.
\<close>

definition wire_token :: "ustr \<Rightarrow> ustr \<Rightarrow> ustr \<Rightarrow> ustr" where
  "wire_token flag name ds = [60] @ flag @ [58] @ name @ [58] @ ds @ [62]"

definition token_parts :: "ustr \<Rightarrow> ustr \<Rightarrow> ustr \<Rightarrow> bool" where
  "token_parts flag name ds \<longleftrightarrow>
     (flag = [] \<or> flag = [97]) \<and>
     1 \<le> length name \<and> length name \<le> 32 \<and> list_all is_name_char name \<and>
     17 \<le> length ds \<and> length ds \<le> 22 \<and> list_all is_digit ds"

text \<open>
  Re-wrapping and re-joining: \<open>rewrapped w node\<close> holds when \<open>w\<close> is the content of a
  text or unicode emoji node, or a wire token with the id of a custom emoji node;
  \<open>join_lines\<close> is \<open>"\n".join\<close>.
\<close>

fun join_lines :: "ustr list \<Rightarrow> ustr" where
  "join_lines [] = []"
| "join_lines [l] = l"
| "join_lines (l # m # ls) = l @ [10] @ join_lines (m # ls)"

definition rewrapped :: "ustr \<Rightarrow> Node \<Rightarrow> bool" where
  "rewrapped w node \<longleftrightarrow>
     (if type node = NT_discord_emoji
      then (\<exists>flag name. token_parts flag name (content node) \<and> w = wire_token flag name (content node))
      else w = content node)"

text \<open>
  The horizontal position of a line as the specification derives it from the original
  \<open>x\<close>, the column of the anchor, \<open>align\<close>, the maximum line width and the line width.
\<close>

definition spec_line_x :: "char \<Rightarrow> string \<Rightarrow> rat \<Rightarrow> rat \<Rightarrow> rat \<Rightarrow> rat" where
  "spec_line_x col al x maxWidth lineWidth =
     x - (if col = CHR ''m'' then (maxWidth - lineWidth) / 2
          else if col = CHR ''r'' then maxWidth - lineWidth else 0)
       + (if al = ''center'' then (maxWidth - lineWidth) / 2
          else if al = ''right'' then maxWidth - lineWidth else 0)"

text \<open>
  The file name of a cached unicode emoji read as \<open>hash(style-identity + emoji-key)\<close>:
  the digest of the style identity followed by the emoji.
\<close>

definition spec_emoji_filename :: "env \<Rightarrow> EmojiCDNSource \<Rightarrow> ustr \<Rightarrow> string" where
  "spec_emoji_filename ev src em = sha256_hexdigest ev (ustr (class_name src) @ em)"

text \<open>The decimal value of a string of digits, the inverse of \<open>str_nat\<close>.\<close>

definition nat_of_str :: "string \<Rightarrow> nat" where
  "nat_of_str s = foldl (\<lambda>acc c. acc * 10 + (of_char c - 48)) 0 s"

section \<open>An example world\<close>

text \<open>
  A font ten pixels wide per character, a backend that measures with it, and an
  environment whose emoji table holds U+1F600. \<open>quote_plus\<close> and the digest are the
  real ones on the strings used below. \<open>example_args\<close> are the defaults of \<open>text\<close>;
  \<open>example_session\<close> is \<open>async with Pilmoji() as p\<close> over an empty cache directory.
\<close>

definition example_font :: font where
  "example_font = \<lparr>font_size = 20, getlength = (\<lambda>s l. of_nat (10 * length s)),
                    font_getsize = (\<lambda>s. (10 * int (length s), 20))\<rparr>"

definition example_pil :: pil where
  "example_pil =
     \<lparr>version_ge_9_2_0 = True, load_default = example_font,
      textbbox_bottom = (\<lambda>f w. 15 + of_int w),
      textlength = (\<lambda>s f l e. of_nat (10 * length s)),
      fontmode = ''L'', getink = (\<lambda>fl. (Some 0, None)),
      getmask2_offset = (\<lambda>f s m l w a i st. Some (0, 0)),
      image_open = (\<lambda>bs. if bs = [] then None else Some (72, 72))\<rparr>"

definition example_env :: "(string \<Rightarrow> response) \<Rightarrow> env" where
  "example_env n =
     \<lparr>pack = [[128512]], net = n,
      quote_plus = (\<lambda>s. if s = [128512] then ''%F0%9F%98%80'' else map char_of s),
      sha256_hexdigest = (\<lambda>s. if s = [128512]
         then ''f0443a342c5ef54783a111b51ba56c938e474c32324d90c3a60c9c8e3a37e2d9''
         else if s = ustr ''TwitterEmojiSource'' @ [128512]
         then ''f58c056ac73a88b0296d62fbf27bcfae161877fd68eb076ef5330f132e4d4930''
         else replicate 64 (CHR ''0'')),
      CACHE_DIR = ''/srv/.cache'', PIL = example_pil\<rparr>"

definition example_args :: "ustr \<Rightarrow> text_args" where
  "example_args t =
     \<lparr>xy = (30, 30), text_str = t, fill = None, fnt = None, anchor = None, spacing = 4,
      node_spacing = 0, align = ''left'', lay = no_layout, stroke_width = 0,
      stroke_fill = None, embedded_color = False, emoji_scale_factor = None,
      emoji_position_offset = None\<rparr>"

definition example_session :: state where
  "example_session =
     aenter (init Map.empty ''TwitterEmojiSource'' (Some ''twitter'') True True 1 (0, 0))"

section \<open>Predicates on sessions and calls\<close>

text \<open>
  \<open>cache_inv\<close>: with caching off the memory caches stay empty. \<open>frame\<close> and \<open>frame0\<close>
  name what fetching leaves alone: the canvas and the settings of the session, and for
  \<open>frame\<close> the memory caches too.
\<close>

definition cache_inv :: "state \<Rightarrow> bool" where
  "cache_inv st \<longleftrightarrow> cache st \<or> (emoji_cache st = [] \<and> discord_emoji_cache st = [])"

definition frame :: "state \<Rightarrow> state \<Rightarrow> bool" where
  "frame st st' \<longleftrightarrow>
     canvas st' = canvas st \<and> source st' = source st \<and> cache st' = cache st \<and>
     closed st' = closed st \<and> new_draw st' = new_draw st \<and> session_closed st' = session_closed st \<and>
     render_discord_emoji st' = render_discord_emoji st \<and>
     default_emoji_scale_factor st' = default_emoji_scale_factor st \<and>
     default_emoji_position_offset st' = default_emoji_position_offset st \<and>
     emoji_cache st' = emoji_cache st \<and> discord_emoji_cache st' = discord_emoji_cache st"

definition frame0 :: "state \<Rightarrow> state \<Rightarrow> bool" where
  "frame0 st st' \<longleftrightarrow>
     canvas st' = canvas st \<and> source st' = source st \<and> cache st' = cache st \<and>
     closed st' = closed st \<and> new_draw st' = new_draw st \<and> session_closed st' = session_closed st \<and>
     render_discord_emoji st' = render_discord_emoji st \<and>
     default_emoji_scale_factor st' = default_emoji_scale_factor st \<and>
     default_emoji_position_offset st' = default_emoji_position_offset st \<and>
     (cache_inv st \<longrightarrow> cache_inv st')"

text \<open>
  \<open>rejected_early\<close>: the parameter errors that \<open>text\<close> tests at its head. \<open>cold\<close>: a
  session that is open and has nothing cached, in memory or on disk. \<open>failing\<close>: a
  network that answers no request with success. \<open>fetchable\<close>: a node whose asset
  \<open>text\<close> asks for.
\<close>

definition rejected_early :: "text_args \<Rightarrow> bool" where
  "rejected_early a \<longleftrightarrow>
     (case anchor a of
        None \<Rightarrow> False
      | Some an \<Rightarrow> length an \<noteq> 2 \<or> (an ! 1 \<in> set ''tb'' \<and> 10 \<in> set (text_str a)))
     \<or> (direction (lay a) = Some ''ttb'' \<and> 10 \<in> set (text_str a))"




text \<open>
  A network that answers every request with four bytes; the session after one fetch of
  U+1F600; then two callers that ask for it again, the first reading its stream before
  the second asks; and the session after one fetch of a custom emoji.
\<close>

definition example_ok :: env where
  "example_ok = example_env (\<lambda>u. Ok [137, 80, 78, 71])"

definition example_filled :: state where
  "example_filled = snd (get_emoji example_ok [128512] example_session)"

definition example_caller_A :: "(nat option) result" where
  "example_caller_A = get_emoji example_ok [128512] example_filled"

definition example_A_reads :: "(nat list) result" where
  "example_A_reads = read_all 0 (snd example_caller_A)"

definition example_caller_B :: "(nat option) result" where
  "example_caller_B = get_emoji example_ok [128512] (snd example_A_reads)"

definition example_fetched :: state where
  "example_fetched =
     example_session\<lparr>heap := (heap example_session)(0 := \<lparr>buf = [137, 80, 78, 71], pos = 0, stream_closed = False\<rparr>),
          next_addr := 1,
          files := [''/srv/.cache/discord_596576798351949847.png'' \<mapsto> [137, 80, 78, 71]],
          requests := [''https://cdn.discordapp.com/emojis/596576798351949847.png''],
          discord_emoji_cache := [(596576798351949847, 0)]\<rparr>"








section \<open>Arithmetic of the model\<close>

lemma py_round_of_int [simp]: "py_round (of_int n) = n"
  by (simp add: py_round_def)

lemma py_round_numeral: "py_round (numeral k) = numeral k"
  using py_round_of_int[of "numeral k"] by simp

lemma floor_numeral_div [simp]:
  "\<lfloor>(numeral a :: rat) / numeral b\<rfloor> = numeral a div numeral b"
  using floor_divide_of_int_eq[of "numeral a" "numeral b", where 'a = rat] by simp

text \<open>
  \<open>find_exp\<close> finds the binary exponent when it has steps enough, and an integer below
  \<open>2 ^ 53\<close> in magnitude is a double.
\<close>

lemma pow2_powi: "pow2 e = 2 powi e"
  by (simp add: pow2_def power_int_def field_simps)

lemma find_exp_up:
  "pow2 e \<le> x \<Longrightarrow> x < pow2 (e + int m) \<Longrightarrow> m \<le> n \<Longrightarrow>
   pow2 (find_exp n x e) \<le> x \<and> x < pow2 (find_exp n x e + 1) \<and> e \<le> find_exp n x e"
proof (induction n arbitrary: e m)
  case 0
  then show ?case by simp
next
  case (Suc n)
  show ?case
  proof (cases "pow2 (e + 1) \<le> x")
    case True
    with Suc.prems have "m \<noteq> 0" by (cases m) auto
    then obtain m' where m: "m = Suc m'" by (cases m) auto
    have "e + int m = e + 1 + int m'" using m by simp
    with Suc.prems(2) have "x < pow2 (e + 1 + int m')" by (simp only:)
    from Suc.IH[OF True this] Suc.prems(3) m Suc.prems(1) True
    show ?thesis by (subst (1 2 3) find_exp.simps) (auto)
  next
    case False
    with Suc.prems show ?thesis by (subst (1 2 3) find_exp.simps) (auto)
  qed
qed

lemma double_of_int:
  assumes "\<bar>n\<bar> < 2 ^ 53"
  shows "double_of (of_int n) = Some (of_int n)"
proof (cases "n = 0")
  case True
  then show ?thesis by (simp add: double_of_def)
next
  case False
  define x :: rat where "x = \<bar>of_int n\<bar>"
  define r where "r = find_exp 2200 x 0"
  have x1: "pow2 0 \<le> x" using False by (simp add: pow2_def x_def flip: of_int_abs)
  have "x < 2 ^ 53" using assms unfolding x_def
    by (metis of_int_abs of_int_less_iff of_int_numeral of_int_power)
  then have x2: "x < pow2 (0 + int 53)" by (simp add: pow2_def)
  from find_exp_up[OF x1 x2, of 2200] have r: "pow2 r \<le> x" "x < pow2 (r + 1)" "0 \<le> r"
    by (simp_all add: r_def)
  have "2 powi r < (2::rat) powi 53" using r(1) \<open>x < 2 ^ 53\<close> by (simp add: pow2_powi)
  then have r53: "r < 53" by (rule power_int_le_imp_less_exp[rotated]) simp_all
  define k where "k = nat (52 - r)"
  have e: "max (r - 52) (- 1074) = - int k" using r(3) r53 by (simp add: k_def)
  have p: "pow2 (- int k) = 1 / 2 ^ k" by (simp add: pow2_def)
  have q: "of_int n / pow2 (- int k) = (of_int (n * 2 ^ k) :: rat)" by (simp add: p)
  have y: "of_int (py_round (of_int n / pow2 (- int k))) * pow2 (- int k) = (of_int n :: rat)"
    unfolding q py_round_of_int by (simp add: p)
  have big: "\<not> (2 ^ 1024 \<le> \<bar>of_int n :: rat\<bar>)"
  proof -
    have "(2::rat) ^ 53 \<le> 2 ^ 1024" by (rule power_increasing) simp_all
    with \<open>x < 2 ^ 53\<close> show ?thesis by (simp add: x_def)
  qed
  show ?thesis
    using False e y big
    by (simp add: double_of_def Let_def r_def[symmetric] x_def[symmetric])
qed

section \<open>Measuring the empty text\<close>

text \<open>
  C10. Measuring the empty string gives width 0 and height \<open>- spacing\<close>, for every font
  and every spacing; with the default spacing 4 the height is negative.
\<close>

theorem getsize_empty:
  "getsize pck v d [] fo s sc = (0, - s) \<and> snd (getsize pck v d [] fo 4 sc) < 0"
  by (simp add: getsize_def to_nodes_def splitlines_def)

section \<open>The spaces that stand for an emoji\<close>

lemma double_of_10: "double_of 10 = Some 10"
  by (simp add: double_of_def find_exp.simps pow2_def py_round_def Let_def)

lemma double_of_12: "double_of 12 = Some 12"
  by (simp add: double_of_def find_exp.simps pow2_def py_round_def Let_def)

lemma double_of_20: "double_of 20 = Some 20"
  by (simp add: double_of_def find_exp.simps pow2_def py_round_def Let_def)

lemma double_of_2: "double_of 2 = Some 2"
  by (simp add: double_of_def find_exp.simps pow2_def py_round_def Let_def)

text \<open>
  The float nearest to 1.15 is \<open>2589569785738035 / 2251799813685248\<close>, below 1.15. Its
  exact product with 10 is below 11.5; the float product is 11.5.
\<close>

lemma double_of_product:
  "2589569785738035 / 2251799813685248 * 10 < (23 / 2 :: rat) \<and>
   double_of (2589569785738035 / 2251799813685248 * 10) = Some (23 / 2)"
  by (simp add: double_of_def find_exp.simps pow2_def py_round_def Let_def)

lemma py_round_tie: "py_round (23 / 2) = 12"
  by (simp add: py_round_def Let_def)

text \<open>
  C5, as the code has it. A node that is no text and whose asset was fetched is replaced
  by \<open>round(size / w)\<close> spaces, where \<open>size = round(s \<times> f) + ox + 2 \<times> ns\<close>. The
  product and the quotient are those of floats: the product \<open>p\<close> is the double nearest
  to \<open>s \<times> f\<close> and is rounded on its own, half to even, before the offset and the node
  spacing are added; the quotient \<open>q\<close> is the double nearest to \<open>size / w\<close>. A text
  node, and a node without asset, contribute their content. The font size and \<open>size\<close>
  are below \<open>2 ^ 53\<close> in magnitude, no float is infinite, and the width \<open>w\<close> of a space
  is not zero.
\<close>

theorem text_line_space_runs:
  assumes "\<bar>fs\<bar> < 2 ^ 53" and "double_of (sc * of_int fs) = Some p"
      and "\<bar>py_round p + ox + 2 * ns\<bar> < 2 ^ 53"
      and "w \<noteq> 0" and "double_of (of_int (py_round p + ox + 2 * ns) / w) = Some q"
  shows "text_line sc fs (ox, oy) ns w nodes acc =
     Inr (acc @ concat (map (\<lambda>(node, stream).
        if type node = NT_text \<or> stream = None then content node
        else replicate (nat (py_round q)) 32) nodes))"
proof -
  have ew: "emoji_width sc fs = Inr (py_round p)"
    using assms(2) double_of_int[OF assms(1)]
    by (simp add: emoji_width_def float_of_int_def round_float_def)
  have sp: "space_to_had (py_round p + ox + ns * 2) w = Inr (py_round q)"
    using assms(4,5) double_of_int[OF assms(3)]
    by (simp add: space_to_had_def float_of_int_def round_float_def mult.commute[of 2]
        del: of_int_add of_int_mult)
  show ?thesis
  proof (induction nodes arbitrary: acc)
    case Nil
    then show ?case by simp
  next
    case (Cons n nodes)
    obtain node stream where n: "n = (node, stream)" by (cases n)
    show ?case using Cons unfolding n
      by (simp add: ew sp del: of_int_add of_int_mult)
  qed
qed

theorem text_line_space_runs_witness:
  "\<bar>10 :: int\<bar> < 2 ^ 53 \<and>
   double_of (2589569785738035 / 2251799813685248 * of_int 10) = Some (23 / 2) \<and>
   \<bar>py_round (23 / 2) + 0 + 2 * 0\<bar> < 2 ^ 53 \<and>
   (1::rat) \<noteq> 0 \<and>
   double_of (of_int (py_round (23 / 2) + 0 + 2 * 0) / 1) = Some 12 \<and>
   text_line (2589569785738035 / 2251799813685248) 10 (0, 0) 0 1
       [(Node NT_text [72, 105, 32], None), (Node NT_emoji [128512], Some 0)] []
     = Inr ([72, 105, 32] @ replicate 12 32)"
proof -
  have 1: "\<bar>10 :: int\<bar> < 2 ^ 53" by simp
  have 2: "double_of (2589569785738035 / 2251799813685248 * of_int 10) = Some (23 / 2)"
    using double_of_product by simp
  have 3: "\<bar>py_round (23 / 2) + 0 + 2 * 0\<bar> < 2 ^ 53" by (simp add: py_round_tie)
  have 4: "(1::rat) \<noteq> 0" by simp
  have 5: "double_of (of_int (py_round (23 / 2) + 0 + 2 * 0) / 1) = Some 12"
    by (simp add: py_round_tie double_of_12)
  from text_line_space_runs [OF 1 2 3 4 5, of 0
      "[(Node NT_text [72, 105, 32], None), (Node NT_emoji [128512], Some 0)]" "[]"] 1 2 3 5
  show ?thesis by (simp add: py_round_def)
qed

text \<open>
  The count of the specification at scale 1/2, font size 21, offset 1, no node spacing
  and a space one pixel wide is 12; the code puts 11 spaces. Every number of this
  computation is a double, so that no float operation rounds.
\<close>

theorem space_count_counterexample:
  "text_line (1 / 2) 21 (1, 0) 0 1 [(Node NT_emoji [128512], Some 0)] [] = Inr (replicate 11 32)
   \<and> nat (spec_space_count (1 / 2) 21 1 0 1) = 12"
proof -
  have w: "emoji_width (1 / 2) 21 = Inr 10"
    by (simp add: emoji_width_def float_of_int_def round_float_def double_of_def find_exp.simps
        pow2_def py_round_def Let_def)
  have n: "space_to_had 11 1 = Inr 11"
    by (simp add: space_to_had_def float_of_int_def round_float_def double_of_def find_exp.simps
        pow2_def py_round_def Let_def)
  show ?thesis
    by (simp add: w n spec_space_count_def py_round_def Let_def)
qed

section \<open>The tokenizer\<close>

subsection \<open>What a match of EMOJI\_REGEX is\<close>

lemma find_sort_key_longest:
  assumes "find P (sort_key (\<lambda>e. - int (length e)) xs) = Some m" "e \<in> set xs" "P e"
  shows "length e \<le> length m"
proof -
  let ?f = "\<lambda>e::'a list. - int (length e)"
  let ?ys = "sort_key ?f xs"
  from assms(1) obtain i where i: "i < length ?ys" "?ys ! i = m" "\<forall>j<i. \<not> P (?ys ! j)"
    by (auto simp: find_Some_iff)
  from assms(2) have "e \<in> set ?ys" by simp
  then obtain k where k: "k < length ?ys" "?ys ! k = e" by (metis in_set_conv_nth)
  with i assms(3) have "i \<le> k" by (metis not_le_imp_less)
  have "sorted (map ?f ?ys)" by (rule sorted_sort_key)
  with \<open>i \<le> k\<close> k(1) have "map ?f ?ys ! i \<le> map ?f ?ys ! k"
    by (simp add: sorted_iff_nth_mono del: sorted_sort_key)
  with i k \<open>i \<le> k\<close> show ?thesis by simp
qed

lemma unicode_match_Some:
  assumes "unicode_match (UNICODE_EMOJI_REGEX pck) s = Some m"
  shows "m \<in> set pck \<and> m \<noteq> [] \<and> prefix m s"
proof -
  from assms obtain i where "i < length (UNICODE_EMOJI_REGEX pck)"
      "UNICODE_EMOJI_REGEX pck ! i = m" "m \<noteq> [] \<and> prefix m s"
    by (auto simp: unicode_match_def find_Some_iff)
  moreover then have "m \<in> set (UNICODE_EMOJI_REGEX pck)" by (metis nth_mem)
  ultimately show ?thesis by (simp add: UNICODE_EMOJI_REGEX_def)
qed

lemma unicode_match_exists:
  assumes "e \<in> set pck" "e \<noteq> []" "prefix e s"
  shows "\<exists>m. unicode_match (UNICODE_EMOJI_REGEX pck) s = Some m \<and> length e \<le> length m"
proof (cases "unicode_match (UNICODE_EMOJI_REGEX pck) s")
  case None
  with assms show ?thesis
    by (auto simp: unicode_match_def find_None_iff UNICODE_EMOJI_REGEX_def)
next
  case (Some m)
  then have "find (\<lambda>e. e \<noteq> [] \<and> prefix e s) (sort_key (\<lambda>e. - int (length e)) pck) = Some m"
    by (simp add: unicode_match_def UNICODE_EMOJI_REGEX_def)
  from find_sort_key_longest[OF this assms(1)] assms(2,3) Some show ?thesis by simp
qed

lemma discord_match_shape:
  assumes "discord_match s = Some m"
  shows "\<exists>flag r2 r4 r6. s = 60 # flag @ 58 # r2 \<and> (flag = [] \<or> flag = [97]) \<and>
           dropWhile is_name_char r2 = 58 # r4 \<and> dropWhile is_digit r4 = 62 # r6 \<and>
           1 \<le> length (takeWhile is_name_char r2) \<and> length (takeWhile is_name_char r2) \<le> 32 \<and>
           17 \<le> length (takeWhile is_digit r4) \<and> length (takeWhile is_digit r4) \<le> 22 \<and>
           m = wire_token flag (takeWhile is_name_char r2) (takeWhile is_digit r4)"
proof -
  from assms obtain r where s: "s = 60 # r"
    by (auto simp: discord_match_def split: list.splits if_splits)
  define flag :: ustr where "flag = (case r of [] \<Rightarrow> [] | a # r' \<Rightarrow> if a = 97 then [97] else [])"
  define r1 where "r1 = drop (length flag) r"
  have fr: "(case r of [] \<Rightarrow> ([], r) | a # r' \<Rightarrow> if a = 97 then ([97], r') else ([], r)) = (flag, r1)"
    by (auto simp: flag_def r1_def split: list.splits)
  have r: "r = flag @ r1" and fl: "flag = [] \<or> flag = [97]"
    by (auto simp: flag_def r1_def split: list.splits)
  have dm: "discord_match s =
     (case r1 of [] \<Rightarrow> None | c1 # r2 \<Rightarrow>
            if c1 \<noteq> 58 then None
            else let name = takeWhile is_name_char r2; r3 = dropWhile is_name_char r2
              in if length name < 1 \<or> 32 < length name then None
                 else (case r3 of [] \<Rightarrow> None | c2 # r4 \<Rightarrow>
                   if c2 \<noteq> 58 then None
                   else let ds = takeWhile is_digit r4; r5 = dropWhile is_digit r4
                     in if length ds < 17 \<or> 22 < length ds then None
                        else (case r5 of [] \<Rightarrow> None | c3 # _ \<Rightarrow>
                          if c3 \<noteq> 62 then None
                          else Some ([60] @ flag @ [58] @ name @ [58] @ ds @ [62]))))"
    unfolding discord_match_def s by (simp add: fr)
  from assms[unfolded dm] obtain r2 where r1: "r1 = 58 # r2"
    by (auto split: list.splits if_splits)
  note H = assms[unfolded dm r1]
  show ?thesis
    unfolding s r r1
    apply (rule exI[of _ flag], rule exI[of _ r2])
    using H fl
    apply (auto simp: Let_def wire_token_def Suc_le_eq split: list.splits if_splits)
    done
qed

lemma discord_match_Some:
  assumes "discord_match s = Some m"
  shows "\<exists>flag name ds. m = wire_token flag name ds \<and> token_parts flag name ds \<and> prefix m s"
proof -
  from discord_match_shape[OF assms] obtain flag r2 r4 r6 where
    s: "s = 60 # flag @ 58 # r2" and fl: "flag = [] \<or> flag = [97]" and
    d2: "dropWhile is_name_char r2 = 58 # r4" and d4: "dropWhile is_digit r4 = 62 # r6" and
    len: "1 \<le> length (takeWhile is_name_char r2)" "length (takeWhile is_name_char r2) \<le> 32"
         "17 \<le> length (takeWhile is_digit r4)" "length (takeWhile is_digit r4) \<le> 22" and
    m: "m = wire_token flag (takeWhile is_name_char r2) (takeWhile is_digit r4)"
    by blast
  have la: "\<And>P (xs::nat list). list_all P (takeWhile P xs)"
    by (auto simp: list_all_iff dest: set_takeWhileD)
  have r2: "r2 = takeWhile is_name_char r2 @ 58 # r4"
    using d2 by (metis takeWhile_dropWhile_id)
  have r4: "r4 = takeWhile is_digit r4 @ 62 # r6"
    using d4 by (metis takeWhile_dropWhile_id)
  have "s = m @ r6"
    unfolding m wire_token_def s using r2 r4 by (metis append_Cons append_Nil append_assoc)
  then have "prefix m s" by simp
  moreover have "token_parts flag (takeWhile is_name_char r2) (takeWhile is_digit r4)"
    using fl len by (simp add: token_parts_def la)
  ultimately show ?thesis using m by blast
qed

lemma EMOJI_REGEX_Some:
  assumes "EMOJI_REGEX pck s = Some m"
  shows "m \<noteq> [] \<and> prefix m s"
  using assms unicode_match_Some[of pck s m] discord_match_Some[of s m]
  by (auto simp: EMOJI_REGEX_def wire_token_def split: option.splits)

lemma re_split_concat: "concat (re_split pck acc s) = acc @ s"
proof (induction pck acc s rule: re_split.induct)
  case (1 pck acc)
  then show ?case by simp
next
  case (2 pck acc c cs)
  show ?case
  proof (cases "EMOJI_REGEX pck (c # cs)")
    case None
    with 2 show ?thesis by simp
  next
    case (Some m)
    from EMOJI_REGEX_Some[OF Some] obtain r where r: "c # cs = m @ r" and "m \<noteq> []"
      by (auto simp: prefix_def)
    then have dr: "drop (length m - 1) cs = r"
      by (cases m) auto
    have "re_split pck acc (c # cs) = acc # m # re_split pck [] r"
      using Some dr by simp
    moreover have "concat (re_split pck [] r) = r"
      using 2(2)[OF Some] dr by simp
    ultimately show ?thesis using r by simp
  qed
qed


subsection \<open>Longest match\<close>

text \<open>
  C4. Where two known emoji sequences \<open>e1\<close> and \<open>e2\<close> both match at the position the scan
  has reached and \<open>e1\<close> is a proper prefix of \<open>e2\<close>, the pattern matches a known sequence
  that is at least as long as \<open>e2\<close>, hence longer than \<open>e1\<close>, and the split takes that
  span as the next match: the shorter sequence never shadows the longer one.
\<close>

theorem longest_match:
  assumes "e1 \<in> set pck" "e2 \<in> set pck" "e1 \<noteq> []" "strict_prefix e1 e2" "prefix e2 s"
  shows "\<exists>m. EMOJI_REGEX pck s = Some m \<and> m \<in> set pck \<and> prefix m s \<and>
             length e1 < length m \<and> length e2 \<le> length m \<and>
             re_split pck acc s = acc # m # re_split pck [] (drop (length m) s)"
proof -
  from assms(3,4) have e2: "e2 \<noteq> []" by auto
  from unicode_match_exists[OF assms(2) e2 assms(5)] obtain m where
    m: "unicode_match (UNICODE_EMOJI_REGEX pck) s = Some m" "length e2 \<le> length m" by blast
  from unicode_match_Some[OF m(1)] have mm: "m \<in> set pck" "m \<noteq> []" "prefix m s" by auto
  have R: "EMOJI_REGEX pck s = Some m" using m(1) by (simp add: EMOJI_REGEX_def)
  from assms(4) have "length e1 < length e2"
    by (metis prefix_length_less)
  moreover
  from mm obtain c cs where s: "s = c # cs" by (cases s) auto
  have "drop (length m - 1) cs = drop (length m) s" using mm(2) s by (cases m) auto
  then have "re_split pck acc s = acc # m # re_split pck [] (drop (length m) s)"
    using R s by simp
  ultimately show ?thesis using R mm m(2) by auto
qed

theorem longest_match_witness:
  "[128104] \<in> set [[128104], [128104, 8205, 128102]] \<and>
   [128104, 8205, 128102] \<in> set [[128104], [128104, 8205, 128102]] \<and>
   strict_prefix [128104] [128104, 8205, 128102 :: nat] \<and>
   prefix [128104, 8205, 128102] [128104, 8205, 128102, 33 :: nat] \<and>
   (\<exists>m. EMOJI_REGEX [[128104], [128104, 8205, 128102]] [128104, 8205, 128102, 33] = Some m \<and>
        length [128104 :: nat] < length m \<and>
        re_split [[128104], [128104, 8205, 128102]] [] [128104, 8205, 128102, 33]
          = [] # m # re_split [[128104], [128104, 8205, 128102]] [] (drop (length m) [128104, 8205, 128102, 33]))"
proof -
  have h: "strict_prefix [128104] [128104, 8205, 128102 :: nat]"
          "prefix [128104, 8205, 128102] [128104, 8205, 128102, 33 :: nat]"
    by (auto simp: strict_prefix_def prefix_def)
  from longest_match [of "[128104]" "[[128104], [128104, 8205, 128102]]" "[128104, 8205, 128102]"
      "[128104, 8205, 128102, 33]" "[]"] h
  have "\<exists>m. EMOJI_REGEX [[128104], [128104, 8205, 128102]] [128104, 8205, 128102, 33] = Some m \<and>
        length [128104 :: nat] < length m \<and>
        re_split [[128104], [128104, 8205, 128102]] [] [128104, 8205, 128102, 33]
          = [] # m # re_split [[128104], [128104, 8205, 128102]] [] (drop (length m) [128104, 8205, 128102, 33])"
    by simp blast
  with h show ?thesis by simp
qed

subsection \<open>Tokenization and the original text\<close>

lemma split_on_no_sep: "d \<notin> set ys \<Longrightarrow> split_on d ys = [ys]"
  by (induction ys) auto

lemma split_on_not_Nil [simp]: "split_on d s \<noteq> []"
  by (induction s) (auto split: list.splits)

lemma split_on_length: "d \<in> set s \<Longrightarrow> 2 \<le> length (split_on d s)"
proof (induction s)
  case Nil
  then show ?case by simp
next
  case (Cons a s)
  show ?case
  proof (cases "a = d")
    case True
    then show ?thesis by (cases "split_on d s") auto
  next
    case False
    with Cons show ?thesis by (auto split: list.splits)
  qed
qed

lemma last_split_on: "last (split_on d (xs @ d # ys)) = last (split_on d ys)"
proof (induction xs)
  case Nil
  then show ?case by simp
next
  case (Cons a xs)
  have "2 \<le> length (split_on d (xs @ d # ys))" by (rule split_on_length) simp
  then obtain s t ss where "split_on d (xs @ d # ys) = s # t # ss"
    by (cases "split_on d (xs @ d # ys)"; cases "tl (split_on d (xs @ d # ys))") auto
  with Cons show ?case by auto
qed

lemma token_id:
  assumes "token_parts flag name ds"
  shows "butlast (last (split_on 58 (wire_token flag name ds))) = ds"
proof -
  have "58 \<notin> set (ds @ [62])"
    using assms by (auto simp: token_parts_def list_all_iff is_digit_def)
  then have "split_on 58 (ds @ [62]) = [ds @ [62]]" by (rule split_on_no_sep)
  moreover have "wire_token flag name ds = ([60] @ flag @ [58] @ name) @ 58 # (ds @ [62])"
    by (simp add: wire_token_def)
  ultimately show ?thesis by (simp only: last_split_on) simp
qed

lemma token_length: "token_parts flag name ds \<Longrightarrow> 18 < length (wire_token flag name ds)"
  by (auto simp: token_parts_def wire_token_def)

lemma parse_chunks_parity: "parse_chunks (Suc (Suc i)) xs = parse_chunks i xs"
  by (induction xs arbitrary: i) auto

lemma parse_chunks_rewrap:
  assumes pk: "\<forall>e\<in>set pck. length e \<le> 18"
  shows "\<exists>ws. list_all2 rewrapped ws (parse_chunks 0 (re_split pck acc s)) \<and> concat ws = acc @ s"
  using pk
proof (induction pck acc s rule: re_split.induct)
  case (1 pck acc)
  show ?case
  proof (cases "acc = []")
    case True
    then show ?thesis by simp
  next
    case False
    then have "list_all2 rewrapped [acc] (parse_chunks 0 (re_split pck acc [])) \<and> concat [acc] = acc @ []"
      by (simp add: rewrapped_def)
    then show ?thesis by blast
  qed
next
  case (2 pck acc c cs)
  show ?case
  proof (cases "EMOJI_REGEX pck (c # cs)")
    case None
    with 2(1)[OF None 2(3)] show ?thesis by simp
  next
    case (Some m)
    note pk = 2(3)
    from EMOJI_REGEX_Some[OF Some] obtain r where r: "c # cs = m @ r" and mne: "m \<noteq> []"
      by (auto simp: prefix_def)
    then have dr: "drop (length m - 1) cs = r"
      by (cases m) auto
    have sp: "re_split pck acc (c # cs) = acc # m # re_split pck [] r"
      using Some dr by simp
    from 2(2)[OF Some pk] dr obtain ws where
      ws: "list_all2 rewrapped ws (parse_chunks 0 (re_split pck [] r))" "concat ws = r"
      by auto
    define n where "n = (if length m > 18 then Node NT_discord_emoji (butlast (last (split_on 58 m)))
                         else Node NT_emoji m)"
    have rn: "rewrapped m n"
    proof (cases "unicode_match (UNICODE_EMOJI_REGEX pck) (c # cs)")
      case (Some u)
      with \<open>EMOJI_REGEX pck (c # cs) = Some m\<close> have "u = m" by (simp add: EMOJI_REGEX_def)
      with unicode_match_Some[OF Some] pk have "length m \<le> 18" by auto
      then show ?thesis by (simp add: n_def rewrapped_def)
    next
      case None
      with \<open>EMOJI_REGEX pck (c # cs) = Some m\<close> have "discord_match (c # cs) = Some m"
        by (simp add: EMOJI_REGEX_def)
      from discord_match_Some[OF this] obtain flag name ds where
        t: "m = wire_token flag name ds" "token_parts flag name ds" by blast
      then show ?thesis
        using token_id[OF t(2)] token_length[OF t(2)]
        by (auto simp: n_def rewrapped_def)
    qed
    have pc: "parse_chunks 0 (acc # m # re_split pck [] r) =
        (if acc = [] then [] else [Node NT_text acc]) @ n # parse_chunks 0 (re_split pck [] r)"
      using mne by (simp add: n_def parse_chunks_parity)
    have "list_all2 rewrapped ((if acc = [] then [] else [acc]) @ m # ws)
            (parse_chunks 0 (re_split pck acc (c # cs)))"
      unfolding sp pc using ws(1) rn
      by (auto simp: rewrapped_def intro!: list_all2_appendI)
    moreover have "concat ((if acc = [] then [] else [acc]) @ m # ws) = acc @ c # cs"
      using ws(2) r by simp
    ultimately show ?thesis by blast
  qed
qed

lemma splitlines_from_not_Nil: "s \<noteq> [] \<Longrightarrow> splitlines_from cur s \<noteq> []"
  by (induction cur s rule: splitlines_from.induct) auto

lemma join_lines_Cons: "ls \<noteq> [] \<Longrightarrow> join_lines (l # ls) = l @ [10] @ join_lines ls"
  by (cases ls) auto

lemma join_splitlines_from:
  assumes "\<forall>c\<in>set s. is_linebreak c \<longrightarrow> c = 10" "s = [] \<or> last s \<noteq> 10"
  shows "join_lines (splitlines_from cur s) = cur @ s"
  using assms
proof (induction cur s rule: splitlines_from.induct)
  case (1 cur)
  then show ?case by simp
next
  case (2 cur c)
  then show ?case by auto
next
  case (3 cur c d cs)
  have nb: "\<not> (c = 13 \<and> d = 10)" using 3(4) by (auto simp: is_linebreak_def)
  show ?case
  proof (cases "is_linebreak c")
    case True
    then have c: "c = 10" using 3(4) by simp
    have "join_lines (splitlines_from [] (d # cs)) = [] @ d # cs"
      using 3(2)[OF nb True] 3(4,5) by simp
    then show ?thesis using nb True c splitlines_from_not_Nil[of "d # cs" "[]"]
      by (simp add: join_lines_Cons)
  next
    case False
    then have "c \<noteq> 13" by (auto simp: is_linebreak_def)
    then show ?thesis using False 3(3)[OF nb False] 3(4,5) by simp
  qed
qed


text \<open>
  C2, as the code has it. A custom emoji node keeps the id of its token only, so the
  name and the animation flag cannot be recovered from the nodes: the text is the
  concatenation, line by line, of strings \<open>w\<close> that are the content of the node or, for a
  custom emoji node, some wire token with the id of the node; the lines joined by
  \<open>\n\<close> are the text. This holds when no known emoji sequence is longer than 18 code
  points, the only line break in the text is \<open>\n\<close> and the text does not end with one.
\<close>

theorem to_nodes_lossless_up_to_token_name:
  assumes "\<forall>e\<in>set pck. length e \<le> 18"
      and "\<forall>c\<in>set t. is_linebreak c \<longrightarrow> c = 10"
      and "t = [] \<or> last t \<noteq> 10"
  shows "\<exists>wss. list_all2 (list_all2 rewrapped) wss (to_nodes pck t) \<and> join_lines (map concat wss) = t"
proof -
  have "\<forall>l. \<exists>ws. list_all2 rewrapped ws (parse_line pck l) \<and> concat ws = l"
    using parse_chunks_rewrap[OF assms(1), of "[]"] by (simp add: parse_line_def)
  then obtain f where f: "\<And>l. list_all2 rewrapped (f l) (parse_line pck l) \<and> concat (f l) = l"
    by metis
  let ?wss = "map f (splitlines t)"
  have "list_all2 (list_all2 rewrapped) ?wss (to_nodes pck t)"
    by (simp add: to_nodes_def list_all2_map1 list_all2_map2 f list_all2_same)
  moreover have "map concat ?wss = splitlines t"
    by (simp add: f map_idI)
  then have "join_lines (map concat ?wss) = t"
    using join_splitlines_from[OF assms(2,3), of "[]"] by (simp add: splitlines_def)
  ultimately show ?thesis by blast
qed

theorem to_nodes_lossless_up_to_token_name_witness:
  "list_all (\<lambda>e. length e \<le> 18) [[128512]] \<and>
   list_all (\<lambda>c. is_linebreak c \<longrightarrow> c = 10)
     (ustr ''Hi <:foo:123456789012345678>'' @ [128512, 10] @ ustr ''ok'') \<and>
   last (ustr ''Hi <:foo:123456789012345678>'' @ [128512, 10] @ ustr ''ok'') \<noteq> 10 \<and>
   (\<exists>wss. list_all2 (list_all2 rewrapped) wss
            (to_nodes [[128512]] (ustr ''Hi <:foo:123456789012345678>'' @ [128512, 10] @ ustr ''ok'')) \<and>
          join_lines (map concat wss) = ustr ''Hi <:foo:123456789012345678>'' @ [128512, 10] @ ustr ''ok'')"
  using to_nodes_lossless_up_to_token_name [of "[[128512]]"
      "ustr ''Hi <:foo:123456789012345678>'' @ [128512, 10] @ ustr ''ok''"]
  by (simp add: ustr_def is_linebreak_def)

text \<open>
  Two different texts with the same nodes: no re-wrapping of the nodes gives back both.
\<close>

theorem to_nodes_lossless_counterexample:
  "to_nodes [[128512]] (ustr ''<:foo:123456789012345678>'')
     = to_nodes [[128512]] (ustr ''<a:bar:123456789012345678>'')
   \<and> ustr ''<:foo:123456789012345678>'' \<noteq> ustr ''<a:bar:123456789012345678>''"
  by (simp add: to_nodes_def splitlines_def is_linebreak_def parse_line_def EMOJI_REGEX_def
      UNICODE_EMOJI_REGEX_def unicode_match_def discord_match_def ustr_def is_name_char_def
      is_digit_def)

section \<open>The horizontal position of a line\<close>

lemma seek0_canvas [simp]: "canvas (snd (seek0 a st)) = canvas st"
  by (simp add: seek0_def)

lemma read_all_canvas [simp]: "canvas (snd (read_all a st)) = canvas st"
  by (simp add: read_all_def)

lemma BytesIO_new_canvas [simp]: "canvas (snd (BytesIO_new bs st)) = canvas st"
  by (simp add: BytesIO_new_def)

lemma paste_nodes_prefix:
  "paste_nodes ev f a sc offs ns x ly st = (r, st') \<Longrightarrow> prefix (canvas st) (canvas st')"
proof (induction ns arbitrary: x st r st')
  case Nil
  then show ?case by simp
next
  case (Cons p ns)
  obtain node stream where p: "p = (node, stream)" by (cases p)
  obtain ox oy where offs: "offs = (ox, oy)" by (cases offs)
  show ?case
  proof (cases "if type node = NT_text then None else stream")
    case None
    with Cons.prems show ?thesis unfolding p by (auto simp: Let_def dest: Cons.IH)
  next
    case (Some s)
    obtain r1 st1 where s1: "seek0 s st = (r1, st1)" by (cases "seek0 s st")
    obtain r2 st2 where s2: "read_all s st1 = (r2, st2)" by (cases "read_all s st1")
    have c1: "canvas st1 = canvas st" using seek0_canvas[of s st] s1 by simp
    have c2: "canvas st2 = canvas st" using read_all_canvas[of s st1] s2 c1 by simp
    from Cons.prems show ?thesis unfolding p offs
      using Some s1 s2 c1 c2
      by (auto simp: Let_def split: sum.splits option.splits prod.splits if_splits
               dest!: Cons.IH[unfolded offs] dest: append_prefixD)
  qed
qed

lemma paste_nodes_canvasD:
  "paste_nodes ev f a sc offs ns x ly st = (r, st') \<Longrightarrow> \<exists>ops. canvas st' = canvas st @ ops"
  using paste_nodes_prefix[of ev f a sc offs ns x ly st r st'] by (auto simp: prefix_def)

lemma align_x_spec:
  assumes "al = ''left'' \<or> al = ''center'' \<or> al = ''right''"
  shows "align_x anc al x0 (maxw - w) = Inr (spec_line_x (anc ! 0) al x0 maxw w)"
  using assms by (auto simp: align_x_def spec_line_x_def Let_def)

lemma draw_line_canvas:
  assumes "align_x anc (align a) (rat_of_int (fst (xy a))) (maxw - w) = Inr x" "tline \<noteq> []"
  shows "\<exists>ops. canvas (snd (draw_line ev f a anc mode sc offs lsp maxw (line, streams, tline, w) (y, ink, sw) st))
           = canvas st @ DrawText (x, y) tline sw # ops"
  using assms
  by (auto simp: draw_line_def Let_def split: prod.splits option.splits sum.splits
           dest!: paste_nodes_canvasD)

text \<open>
  C6. With \<open>align\<close> one of left, center and right, the position computed for a line is
  the one of the specification: the original \<open>x\<close>, minus half of
  \<open>maxWidth - lineWidth\<close> for the anchor column \<open>m\<close> or all of it for \<open>r\<close>, plus half of
  it for \<open>align\<close> center or all of it for right. The text of a line that is not empty
  is drawn at that position, before any paste of the line.
\<close>

theorem line_x_offset:
  assumes "align a = ''left'' \<or> align a = ''center'' \<or> align a = ''right''"
  shows "align_x anc (align a) x0 (maxw - w) = Inr (spec_line_x (anc ! 0) (align a) x0 maxw w) \<and>
         (tline \<noteq> [] \<longrightarrow>
           (\<exists>ops. canvas (snd (draw_line ev f a anc mode sc offs lsp maxw (line, streams, tline, w) (y, ink, sw) st))
              = canvas st @ DrawText (spec_line_x (anc ! 0) (align a) (rat_of_int (fst (xy a))) maxw w, y) tline sw # ops))"
proof (intro conjI impI)
  show "align_x anc (align a) x0 (maxw - w) = Inr (spec_line_x (anc ! 0) (align a) x0 maxw w)"
    by (rule align_x_spec[OF assms])
next
  assume "tline \<noteq> []"
  with align_x_spec[OF assms, of anc "rat_of_int (fst (xy a))" maxw w]
  show "\<exists>ops. canvas (snd (draw_line ev f a anc mode sc offs lsp maxw (line, streams, tline, w) (y, ink, sw) st))
              = canvas st @ DrawText (spec_line_x (anc ! 0) (align a) (rat_of_int (fst (xy a))) maxw w, y) tline sw # ops"
    by (rule draw_line_canvas)
qed

theorem line_x_offset_witness:
  "align ((example_args (ustr ''Hi''))\<lparr>align := ''center''\<rparr>) = ''center'' \<and>
   align_x ''la'' ''center'' 30 (100 - 20) = Inr 70 \<and>
   (\<exists>ops. canvas (snd (draw_line (example_env (\<lambda>u. Timeout)) example_font
              ((example_args (ustr ''Hi''))\<lparr>align := ''center''\<rparr>) ''la'' ''L'' 1 (0, 0) 19 100
              ([Node NT_text (ustr ''Hi'')], [None], ustr ''Hi'', 20) (30, Some 0, 0) example_session))
          = DrawText (70, 30) (ustr ''Hi'') 0 # ops)"
  using line_x_offset [of "(example_args (ustr ''Hi''))\<lparr>align := ''center''\<rparr>" "''la''" 30 100 20
      "ustr ''Hi''" "example_env (\<lambda>u. Timeout)" example_font "''L''" 1 "(0, 0)" 19
      "[Node NT_text (ustr ''Hi'')]" "[None]" 30 "Some 0" 0 example_session]
  by (simp add: example_args_def spec_line_x_def ustr_def example_session_def aenter_def init_def)

section \<open>The names of the cached files\<close>

lemma nat_of_str_nat: "nat_of_str (str_nat n) = n"
proof (induction n rule: str_nat.induct)
  case (1 n)
  show ?case
  proof (cases "n < 10")
    case True
    then show ?thesis by (subst str_nat.simps) (simp add: nat_of_str_def)
  next
    case False
    have "str_nat n = str_nat (n div 10) @ [char_of (48 + n mod 10)]"
      using False by (subst str_nat.simps) simp
    moreover have "(48 + n mod 10) mod 256 = 48 + n mod 10"
      by simp
    ultimately show ?thesis using 1[OF False] by (simp add: nat_of_str_def)
  qed
qed

lemma str_nat_inj: "str_nat a = str_nat b \<Longrightarrow> a = b"
  by (metis nat_of_str_nat)

lemma str_nat_hd: "\<exists>c cs. str_nat n = c # cs \<and> c \<noteq> CHR ''-''"
proof (induction n rule: str_nat.induct)
  case (1 n)
  show ?case
  proof (cases "n < 10")
    case True
    have "char_of (48 + n) \<noteq> CHR ''-''"
    proof
      assume "char_of (48 + n) = CHR ''-''"
      then have "of_char (char_of (48 + n)) = (of_char CHR ''-'' :: nat)" by simp
      with True show False by simp
    qed
    with True show ?thesis by (subst str_nat.simps) simp
  next
    case False
    with 1[OF False] show ?thesis by (subst str_nat.simps) auto
  qed
qed

lemma str_int_inj: "str_int i = str_int j \<longleftrightarrow> i = j"
proof
  assume eq: "str_int i = str_int j"
  obtain c cs where a: "str_nat (nat i) = c # cs" "c \<noteq> CHR ''-''" using str_nat_hd by blast
  obtain d ds where b: "str_nat (nat j) = d # ds" "d \<noteq> CHR ''-''" using str_nat_hd by blast
  show "i = j"
  proof (cases "i < 0"; cases "j < 0")
    assume "i < 0" "j < 0"
    with eq have "nat (- i) = nat (- j)" by (auto simp: str_int_def dest: str_nat_inj)
    with \<open>i < 0\<close> \<open>j < 0\<close> show ?thesis by simp
  next
    assume "i < 0" "\<not> j < 0"
    with eq b show ?thesis by (auto simp: str_int_def)
  next
    assume "\<not> i < 0" "j < 0"
    with eq a show ?thesis by (auto simp: str_int_def)
  next
    assume "\<not> i < 0" "\<not> j < 0"
    with eq have "nat i = nat j" by (auto simp: str_int_def dest: str_nat_inj)
    with \<open>\<not> i < 0\<close> \<open>\<not> j < 0\<close> show ?thesis by simp
  qed
qed simp

text \<open>
  C9, as the code has it. The file name of a cached unicode emoji is the class name of
  the source, an underscore, the SHA-256 digest of the emoji alone and \<open>.png\<close>: the style
  identity stands in the name as it is and only the emoji is hashed. Two such names
  are equal exactly when the class names are equal and the digests of the emoji are, and
  the name is never a bare digest. The file name of a custom emoji is \<open>discord_\<close>, the
  decimal id and \<open>.png\<close>, and different ids give different names. Digests are 64
  characters long.
\<close>

theorem cache_paths:
  assumes "\<forall>x. length (sha256_hexdigest ev x) = 64"
  shows "emoji_cache_path ev src em
           = CACHE_DIR ev @ ''/'' @ class_name src @ ''_'' @ sha256_hexdigest ev em @ ''.png'' \<and>
         (emoji_cache_path ev src em = emoji_cache_path ev src' em'
            \<longleftrightarrow> class_name src = class_name src' \<and> sha256_hexdigest ev em = sha256_hexdigest ev em') \<and>
         emoji_cache_path ev src em \<noteq> CACHE_DIR ev @ ''/'' @ sha256_hexdigest ev x @ ''.png'' \<and>
         discord_cache_path ev i = CACHE_DIR ev @ ''/'' @ ''discord_'' @ str_int i @ ''.png'' \<and>
         (discord_cache_path ev i = discord_cache_path ev j \<longleftrightarrow> i = j)"
proof -
  have len: "\<And>a b. length (''_'' @ sha256_hexdigest ev a @ ''.png'') = length (''_'' @ sha256_hexdigest ev b @ ''.png'')"
    using assms by simp
  have "(class_name src @ (''_'' @ sha256_hexdigest ev em @ ''.png'')
          = class_name src' @ (''_'' @ sha256_hexdigest ev em' @ ''.png''))
        \<longleftrightarrow> class_name src = class_name src' \<and> sha256_hexdigest ev em = sha256_hexdigest ev em'"
    using append_eq_append_conv[OF disjI2[OF len[of em em']], of "class_name src" "class_name src'"]
    by auto
  then have iff: "emoji_cache_path ev src em = emoji_cache_path ev src' em'
            \<longleftrightarrow> class_name src = class_name src' \<and> sha256_hexdigest ev em = sha256_hexdigest ev em'"
    by (simp add: emoji_cache_path_def)
  have "length (emoji_cache_path ev src em) \<noteq> length (CACHE_DIR ev @ ''/'' @ sha256_hexdigest ev x @ ''.png'')"
    using assms by (simp add: emoji_cache_path_def)
  then have ne: "emoji_cache_path ev src em \<noteq> CACHE_DIR ev @ ''/'' @ sha256_hexdigest ev x @ ''.png''"
    by metis
  show ?thesis using iff ne by (simp add: emoji_cache_path_def discord_cache_path_def str_int_inj)
qed

theorem cache_paths_witness:
  "length (sha256_hexdigest (example_env (\<lambda>u. Timeout)) [128512]) = 64 \<and>
   emoji_cache_path (example_env (\<lambda>u. Timeout))
      \<lparr>class_name = ''TwitterEmojiSource'', STYLE = Some ''twitter'', has_session = True\<rparr> [128512]
     = ''/srv/.cache/TwitterEmojiSource_f0443a342c5ef54783a111b51ba56c938e474c32324d90c3a60c9c8e3a37e2d9.png'' \<and>
   discord_cache_path (example_env (\<lambda>u. Timeout)) 596576798351949847
     = ''/srv/.cache/discord_'' @ str_int 596576798351949847 @ ''.png''"
  using cache_paths [of "example_env (\<lambda>u. Timeout)"
      "\<lparr>class_name = ''TwitterEmojiSource'', STYLE = Some ''twitter'', has_session = True\<rparr>" "[128512]"
      "\<lparr>class_name = ''TwitterEmojiSource'', STYLE = Some ''twitter'', has_session = True\<rparr>" "[128512]"
      "[]" 596576798351949847 596576798351949847]
  by (simp add: example_env_def)

text \<open>
  The cached file of U+1F600 from the Twitter source: its name shows the class name and
  the digest of the emoji alone; it is not the digest of the style identity with the
  emoji.
\<close>

theorem cache_filename_counterexample:
  "emoji_cache_path (example_env (\<lambda>u. Timeout))
      \<lparr>class_name = ''TwitterEmojiSource'', STYLE = Some ''twitter'', has_session = True\<rparr> [128512]
     = ''/srv/.cache/TwitterEmojiSource_f0443a342c5ef54783a111b51ba56c938e474c32324d90c3a60c9c8e3a37e2d9.png'' \<and>
   emoji_cache_path (example_env (\<lambda>u. Timeout))
      \<lparr>class_name = ''TwitterEmojiSource'', STYLE = Some ''twitter'', has_session = True\<rparr> [128512]
     \<noteq> CACHE_DIR (example_env (\<lambda>u. Timeout)) @ ''/'' @
        spec_emoji_filename (example_env (\<lambda>u. Timeout))
          \<lparr>class_name = ''TwitterEmojiSource'', STYLE = Some ''twitter'', has_session = True\<rparr> [128512]
        @ ''.png''"
  by (simp add: emoji_cache_path_def spec_emoji_filename_def example_env_def ustr_def)

section \<open>What fetching leaves alone\<close>

lemma frame_refl [simp]: "frame st st"
  by (simp add: frame_def)

lemma frame_trans: "frame a b \<Longrightarrow> frame b c \<Longrightarrow> frame a c"
  by (simp add: frame_def)

lemma frame_seek0: "seek0 a st = (r, st') \<Longrightarrow> frame st st'"
  by (auto simp: seek0_def frame_def split: if_splits)

lemma frame_read_all: "read_all a st = (r, st') \<Longrightarrow> frame st st'"
  by (auto simp: read_all_def frame_def split: if_splits)

lemma frame_BytesIO_new: "BytesIO_new bs st = (a, st') \<Longrightarrow> frame st st'"
  by (auto simp: BytesIO_new_def frame_def)

lemma frame_request: "request ev src url st = (r, st') \<Longrightarrow> frame st st'"
  by (auto simp: request_def frame_def BytesIO_new_def Let_def split: response.splits if_splits)

lemma frame_CDN_get_emoji: "CDN_get_emoji ev src em st = (r, st') \<Longrightarrow> frame st st'"
  by (auto simp: CDN_get_emoji_def Let_def split: option.splits prod.splits sum.splits
           dest: frame_request)

lemma frame_Mixin_get_discord_emoji: "Mixin_get_discord_emoji ev src i st = (r, st') \<Longrightarrow> frame st st'"
  by (auto simp: Mixin_get_discord_emoji_def Let_def split: option.splits prod.splits sum.splits
           dest: frame_request)

lemma frame_files_upd: "frame st (st\<lparr>files := fs\<rparr>)"
  by (simp add: frame_def)

lemma frame_cached_get:
  assumes "\<And>s r s'. fetch s = (r, s') \<Longrightarrow> frame s s'"
      and "cached_get path fetch st = (r, st')"
  shows "frame st st'"
  using assms(2)
  apply (auto simp: cached_get_def Let_def split: option.splits prod.splits sum.splits
           dest!: assms(1) frame_BytesIO_new frame_read_all frame_seek0)
   apply (simp_all add: frame_def)
  done

lemma frame_source_get_emoji: "source_get_emoji ev em st = (r, st') \<Longrightarrow> frame st st'"
  by (auto simp: source_get_emoji_def Cached_get_emoji_def
           elim: frame_cached_get[rotated] dest: frame_CDN_get_emoji split: source.splits)

lemma frame_source_get_discord_emoji: "source_get_discord_emoji ev i st = (r, st') \<Longrightarrow> frame st st'"
  by (auto simp: source_get_discord_emoji_def Cached_get_discord_emoji_def
           elim: frame_cached_get[rotated] dest: frame_Mixin_get_discord_emoji split: source.splits)

lemma frame0_refl [simp]: "frame0 st st"
  by (simp add: frame0_def)

lemma frame0_trans: "frame0 a b \<Longrightarrow> frame0 b c \<Longrightarrow> frame0 a c"
  by (simp add: frame0_def)

lemma frame0_get_emoji: "get_emoji ev em st = (r, st') \<Longrightarrow> frame0 st st'"
  apply (auto simp: get_emoji_def Let_def split: option.splits prod.splits sum.splits if_splits
           dest!: frame_source_get_emoji frame_seek0)
  apply (simp_all add: frame_def frame0_def cache_inv_def)
  done

lemma frame0_get_discord_emoji: "get_discord_emoji ev ds st = (r, st') \<Longrightarrow> frame0 st st'"
  apply (auto simp: get_discord_emoji_def Let_def split: option.splits prod.splits sum.splits if_splits
           dest!: frame_source_get_discord_emoji frame_seek0)
  apply (simp_all add: frame_def frame0_def cache_inv_def)
  done

lemma frame0_process_line: "process_line ev node st = (r, st') \<Longrightarrow> frame0 st st'"
  by (auto simp: process_line_def split: if_splits dest: frame0_get_emoji frame0_get_discord_emoji)

lemma frame0_gather: "gather ev line st = (r, st') \<Longrightarrow> frame0 st st'"
proof (induction line arbitrary: st r st')
  case Nil
  then show ?case by simp
next
  case (Cons node line)
  obtain r1 st1 where p: "process_line ev node st = (r1, st1)" by (cases "process_line ev node st")
  note f1 = frame0_process_line[OF p]
  show ?case
  proof (cases r1)
    case (Inl e)
    with Cons.prems p f1 show ?thesis by simp
  next
    case (Inr s)
    obtain r2 st2 where g: "gather ev line st1 = (r2, st2)" by (cases "gather ev line st1")
    from Cons.IH[OF g] f1 have "frame0 st st2" by (rule frame0_trans[rotated])
    with Cons.prems p Inr g show ?thesis by (auto split: sum.splits)
  qed
qed

lemma frame0_layout_lines: "layout_lines ev f a sc offs sp nodes st = (r, st') \<Longrightarrow> frame0 st st'"
proof (induction nodes arbitrary: st r st')
  case Nil
  then show ?case by simp
next
  case (Cons line nodes)
  obtain r1 st1 where g: "gather ev line st = (r1, st1)" by (cases "gather ev line st")
  note f1 = frame0_gather[OF g]
  show ?case
  proof (cases r1)
    case (Inl e)
    with Cons.prems g f1 show ?thesis by simp
  next
    case (Inr streams)
    show ?thesis
    proof (cases "text_line sc (font_size f) offs (node_spacing a) sp (zip line streams) []")
      case (Inl e)
      with Cons.prems g f1 Inr show ?thesis by simp
    next
      case (Inr tline)
      obtain r2 st2 where l: "layout_lines ev f a sc offs sp nodes st1 = (r2, st2)"
        by (cases "layout_lines ev f a sc offs sp nodes st1")
      from Cons.IH[OF l] f1 have "frame0 st st2" by (rule frame0_trans[rotated])
      with Cons.prems g \<open>r1 = Inr streams\<close> Inr l show ?thesis by (auto simp: Let_def split: sum.splits)
    qed
  qed
qed

section \<open>The example world, evaluated\<close>

lemma example_session_fields:
  "cache example_session" "render_discord_emoji example_session"
  "default_emoji_scale_factor example_session = 1"
  "default_emoji_position_offset example_session = (0, 0)"
  "canvas example_session = []" "requests example_session = []"
  "files example_session = Map.empty" "emoji_cache example_session = []"
  "discord_emoji_cache example_session = []" "\<not> session_closed example_session"
  "\<not> closed example_session" "\<not> new_draw example_session"
  "source example_session = CachedHTTPBased
     \<lparr>class_name = ''TwitterEmojiSource'', STYLE = Some ''twitter'', has_session = True\<rparr>"
  "next_addr example_session = 0"
  by (simp_all add: example_session_def aenter_def init_def)

lemma example_quote: "map char_of (ustr ''twitter'') = ''twitter''"
  by (simp add: ustr_def char_of_def bit_iff_odd)

lemma example_filled_eq:
  "get_emoji example_ok [128512] example_session
    = (Inr (Some 0),
       example_session\<lparr>heap := (heap example_session)(0 := \<lparr>buf = [137, 80, 78, 71], pos = 0, stream_closed = False\<rparr>),
          next_addr := 1,
          files := [''/srv/.cache/TwitterEmojiSource_f0443a342c5ef54783a111b51ba56c938e474c32324d90c3a60c9c8e3a37e2d9.png'' \<mapsto> [137, 80, 78, 71]],
          requests := [''https://emojicdn.elk.sh/%F0%9F%98%80?style=twitter''],
          emoji_cache := [([128512], 0)]\<rparr>)"
  by (simp add: get_emoji_def source_get_emoji_def example_session_fields
      Cached_get_emoji_def cached_get_def emoji_cache_path_def
      CDN_get_emoji_def request_def BASE_EMOJI_CDN_URL_def ustr_def char_of_def bit_iff_odd
      example_ok_def example_env_def BytesIO_new_def read_all_def seek0_def Let_def)

lemma example_filled_state:
  "example_filled
    = example_session\<lparr>heap := (heap example_session)(0 := \<lparr>buf = [137, 80, 78, 71], pos = 0, stream_closed = False\<rparr>),
          next_addr := 1,
          files := [''/srv/.cache/TwitterEmojiSource_f0443a342c5ef54783a111b51ba56c938e474c32324d90c3a60c9c8e3a37e2d9.png'' \<mapsto> [137, 80, 78, 71]],
          requests := [''https://emojicdn.elk.sh/%F0%9F%98%80?style=twitter''],
          emoji_cache := [([128512], 0)]\<rparr>"
  by (simp add: example_filled_def example_filled_eq)

lemma example_args_fields:
  "xy (example_args t) = (30, 30)" "text_str (example_args t) = t" "fill (example_args t) = None"
  "fnt (example_args t) = None" "anchor (example_args t) = None" "spacing (example_args t) = 4"
  "node_spacing (example_args t) = 0" "align (example_args t) = ''left''"
  "lay (example_args t) = no_layout" "stroke_width (example_args t) = 0"
  "stroke_fill (example_args t) = None" "embedded_color (example_args t) = False"
  "emoji_scale_factor (example_args t) = None" "emoji_position_offset (example_args t) = None"
  by (simp_all add: example_args_def)

lemma example_pil_fields:
  "version_ge_9_2_0 example_pil" "load_default example_pil = example_font"
  "textbbox_bottom example_pil f w = 15 + of_int w"
  "textlength example_pil s f l e = of_nat (10 * length s)"
  "fontmode example_pil = ''L''" "getink example_pil fl = (Some 0, None)"
  "getmask2_offset example_pil f s m l w a i st = Some (0, 0)"
  "image_open example_pil bs = (if bs = [] then None else Some (72, 72))"
  "font_size example_font = 20"
  by (simp_all add: example_pil_def example_font_def)



lemma example_nodes:
  "to_nodes (pack (example_env n)) (ustr ''<:rooThink:596576798351949847>'')
     = [[Node NT_discord_emoji (ustr ''596576798351949847'')]]"
  by (simp add: example_env_def to_nodes_def splitlines_def is_linebreak_def parse_line_def EMOJI_REGEX_def
      UNICODE_EMOJI_REGEX_def unicode_match_def discord_match_def ustr_def is_name_char_def
      is_digit_def)

lemma example_id: "int_of_digits (ustr ''596576798351949847'') = Some 596576798351949847"
  by (simp add: int_of_digits_def ustr_def is_digit_def)

lemma example_str_int: "str_int 596576798351949847 = ''596576798351949847''"
  by (simp add: str_int_def str_nat.simps char_of_def bit_iff_odd)

lemma example_fetch:
  "get_discord_emoji (example_env (\<lambda>u. Ok [137, 80, 78, 71])) (ustr ''596576798351949847'') example_session
    = (Inr (Some 0),
       example_session\<lparr>heap := (heap example_session)(0 := \<lparr>buf = [137, 80, 78, 71], pos = 0, stream_closed = False\<rparr>),
          next_addr := 1,
          files := [''/srv/.cache/discord_596576798351949847.png'' \<mapsto> [137, 80, 78, 71]],
          requests := [''https://cdn.discordapp.com/emojis/596576798351949847.png''],
          discord_emoji_cache := [(596576798351949847, 0)]\<rparr>)"
  by (simp add: get_discord_emoji_def example_id source_get_discord_emoji_def example_session_def
      aenter_def init_def Cached_get_discord_emoji_def cached_get_def discord_cache_path_def
      example_str_int Mixin_get_discord_emoji_def request_def BASE_DISCORD_EMOJI_URL_def
      example_env_def BytesIO_new_def read_all_def seek0_def Let_def)

lemma example_ok_fields:
  "pack example_ok = [[128512]]" "PIL example_ok = example_pil"
  by (simp_all add: example_ok_def example_env_def)

lemma example_ok_nodes:
  "to_nodes [[128512]] (ustr ''<:rooThink:596576798351949847>'')
     = [[Node NT_discord_emoji (ustr ''596576798351949847'')]]"
  using example_nodes by (simp add: example_env_def)

lemma example_ok_fetch:
  "get_discord_emoji example_ok (ustr ''596576798351949847'') example_session
    = (Inr (Some 0),
       example_session\<lparr>heap := (heap example_session)(0 := \<lparr>buf = [137, 80, 78, 71], pos = 0, stream_closed = False\<rparr>),
          next_addr := 1,
          files := [''/srv/.cache/discord_596576798351949847.png'' \<mapsto> [137, 80, 78, 71]],
          requests := [''https://cdn.discordapp.com/emojis/596576798351949847.png''],
          discord_emoji_cache := [(596576798351949847, 0)]\<rparr>)"
  using example_fetch by (simp add: example_ok_def)

lemma example_gather:
  "gather example_ok [Node NT_discord_emoji (ustr ''596576798351949847'')] example_session
     = (Inr [Some 0], example_fetched)"
  by (simp add: process_line_def example_session_fields example_ok_fetch example_fetched_def)

lemma example_emoji_width: "emoji_width 1 20 = Inr 20"
  by (simp add: emoji_width_def float_of_int_def round_float_def double_of_20 py_round_numeral)

lemma example_space_to_had: "space_to_had 20 10 = Inr 2"
  by (simp add: space_to_had_def float_of_int_def round_float_def double_of_20 double_of_2
      py_round_numeral)

lemma example_text_line:
  "text_line 1 20 (0, 0) 0 10 [(Node NT_discord_emoji (ustr ''596576798351949847''), Some 0)] []
     = Inr [32, 32]"
  by (simp add: example_emoji_width example_space_to_had py_round_numeral eval_nat_numeral)

lemma example_layout:
  "node_spacing a = 0 \<Longrightarrow>
   layout_lines example_ok example_font a 1 (0, 0) 10
       [[Node NT_discord_emoji (ustr ''596576798351949847'')]] example_session
     = (Inr [([Some 0], [32, 32], 20)], example_fetched)"
  by (simp add: example_gather example_text_line example_pil_fields example_ok_fields
      del: gather.simps text_line.simps)

lemma example_draw:
  \<open>align a = ''justify'' \<Longrightarrow>
   draw_lines ev f a anc mode sc offs lsp maxw [e] (y, ink, sw) st
     = (Inl (ValueError ''align must be "left", "center" or "right"''), st)\<close>
  by (cases e) (simp add: draw_line_def align_x_def Let_def)

section \<open>Validation of the parameters\<close>

lemma layout_lines_length:
  "layout_lines ev f a sc offs sp nodes st = (Inr ls, st') \<Longrightarrow> length ls = length nodes"
proof (induction nodes arbitrary: st ls st')
  case Nil
  then show ?case by simp
next
  case (Cons line nodes)
  then show ?case
    by (auto simp: Let_def split: prod.splits sum.splits)
qed

lemma align_x_invalid:
  assumes "al \<noteq> ''left''" "al \<noteq> ''center''" "al \<noteq> ''right''"
  shows "\<exists>msg. align_x anc al x wd = Inl (ValueError msg)"
  using assms by (simp add: align_x_def Let_def)

lemma draw_lines_invalid_align:
  assumes "align a \<noteq> ''left''" "align a \<noteq> ''center''" "align a \<noteq> ''right''"
  shows "\<exists>msg. draw_lines ev f a anc mode sc offs lsp maxw (e # es) carried st = (Inl (ValueError msg), st)"
proof -
  obtain line streams tline w where e: "e = (line, streams, tline, w)" by (cases e)
  obtain y ink sw where c: "carried = (y, ink, sw)" by (cases carried)
  from align_x_invalid[OF assms] obtain msg where
    "align_x anc (align a) (rat_of_int (fst (xy a))) (maxw - w) = Inl (ValueError msg)" by blast
  then show ?thesis unfolding e c by (simp add: draw_line_def Let_def)
qed

lemma text_rejected_early:
  assumes "rejected_early a"
  shows "\<exists>msg. PilmojiDrawer_text ev a st = (Inl (ValueError msg), st)"
  using assms
  by (auto simp: rejected_early_def PilmojiDrawer_text_def check_anchor_def Let_def
           split: option.splits)

lemma text_invalid_align:
  assumes "align a \<noteq> ''left''" "align a \<noteq> ''center''" "align a \<noteq> ''right''"
  shows "canvas (snd (PilmojiDrawer_text ev a st)) = canvas st \<and>
         (to_nodes (pack ev) (text_str a) \<noteq> [] \<longrightarrow> isl (fst (PilmojiDrawer_text ev a st)))"
proof (cases "rejected_early a")
  case True
  from text_rejected_early[OF True, of ev st] show ?thesis by auto
next
  case False
  define sc where "sc = (case emoji_scale_factor a of None \<Rightarrow> default_emoji_scale_factor st | Some s \<Rightarrow> s)"
  define offs where "offs = (case emoji_position_offset a of None \<Rightarrow> default_emoji_position_offset st | Some p \<Rightarrow> p)"
  define f where "f = (case fnt a of None \<Rightarrow> load_default (PIL ev) | Some f \<Rightarrow> f)"
  define sp where "sp = textlength (PIL ev) [32] f (lay a) (embedded_color a)"
  define nodes where "nodes = to_nodes (pack ev) (text_str a)"
  from False obtain anc where anc: "check_anchor (anchor a) (text_str a) = Inr anc"
    by (auto simp: rejected_early_def check_anchor_def split: option.splits)
  from False have dir: "\<not> (direction (lay a) = Some ''ttb'' \<and> 10 \<in> set (text_str a))"
    by (simp add: rejected_early_def)
  obtain r st1 where l: "layout_lines ev f a sc offs sp nodes st = (r, st1)"
    by (cases "layout_lines ev f a sc offs sp nodes st")
  have c1: "canvas st1 = canvas st" using frame0_layout_lines[OF l] by (simp add: frame0_def)
  show ?thesis
  proof (cases r)
    case (Inl e)
    then have "PilmojiDrawer_text ev a st = (Inl e, st1)"
      using anc dir l
      by (auto simp: PilmojiDrawer_text_def Let_def sc_def offs_def f_def sp_def nodes_def)
    then show ?thesis using c1 by simp
  next
    case (Inr ls)
    have len: "length ls = length nodes" using layout_lines_length l Inr by blast
    show ?thesis
    proof (cases nodes)
      case Nil
      then have "ls = []" using len by simp
      moreover have "st1 = st" using l Nil by simp
      ultimately have "PilmojiDrawer_text ev a st = (Inr (), st)"
        using anc dir l Inr Nil
        by (auto simp: PilmojiDrawer_text_def Let_def sc_def offs_def f_def sp_def nodes_def)
      then show ?thesis using Nil by (simp add: nodes_def)
    next
      case (Cons n ns)
      then obtain e es where z: "zip nodes ls = e # es" using len by (cases ls) auto
      have "\<exists>msg. PilmojiDrawer_text ev a st = (Inl (ValueError msg), st1)"
        using anc dir l Inr z draw_lines_invalid_align[OF assms, of ev f anc _ sc offs _ _ e es _ st1]
        by (auto simp: PilmojiDrawer_text_def Let_def sc_def offs_def f_def sp_def nodes_def)
      then show ?thesis using c1 by auto
    qed
  qed
qed

text \<open>
  C3, as the code has it. An anchor that is not 2 characters long, an anchor whose
  second character is \<open>t\<close> or \<open>b\<close> with a line feed in the text, and the direction
  \<open>ttb\<close> with a line feed in the text make \<open>text\<close> raise \<open>ValueError\<close> at once: the
  whole state is as before. An \<open>align\<close> other than left, center and right is tested
  in the loop that draws the lines, after the assets of all lines were fetched: the
  canvas is as before, and the call raises when the text has at least one line.
\<close>

theorem text_validation:
  "(rejected_early a \<longrightarrow> (\<exists>msg. PilmojiDrawer_text ev a st = (Inl (ValueError msg), st))) \<and>
   (align a \<noteq> ''left'' \<and> align a \<noteq> ''center'' \<and> align a \<noteq> ''right'' \<longrightarrow>
      canvas (snd (PilmojiDrawer_text ev a st)) = canvas st \<and>
      (to_nodes (pack ev) (text_str a) \<noteq> [] \<longrightarrow> isl (fst (PilmojiDrawer_text ev a st))))"
  using text_rejected_early text_invalid_align by blast

theorem text_validation_witness:
  "rejected_early ((example_args [97, 10, 98])\<lparr>anchor := Some ''mb''\<rparr>) \<and>
   (\<exists>msg. PilmojiDrawer_text example_ok ((example_args [97, 10, 98])\<lparr>anchor := Some ''mb''\<rparr>) example_session
      = (Inl (ValueError msg), example_session)) \<and>
   align ((example_args [72, 105])\<lparr>align := ''justify''\<rparr>) \<noteq> ''left'' \<and>
   align ((example_args [72, 105])\<lparr>align := ''justify''\<rparr>) \<noteq> ''center'' \<and>
   align ((example_args [72, 105])\<lparr>align := ''justify''\<rparr>) \<noteq> ''right'' \<and>
   to_nodes (pack example_ok) (text_str ((example_args [72, 105])\<lparr>align := ''justify''\<rparr>)) \<noteq> [] \<and>
   canvas (snd (PilmojiDrawer_text example_ok ((example_args [72, 105])\<lparr>align := ''justify''\<rparr>) example_session))
     = canvas example_session \<and>
   isl (fst (PilmojiDrawer_text example_ok ((example_args [72, 105])\<lparr>align := ''justify''\<rparr>) example_session))"
proof -
  have 1: "rejected_early ((example_args [97, 10, 98])\<lparr>anchor := Some ''mb''\<rparr>)"
    by (simp add: rejected_early_def example_args_def)
  have 2: "align ((example_args [72, 105])\<lparr>align := ''justify''\<rparr>) \<noteq> ''left''"
          "align ((example_args [72, 105])\<lparr>align := ''justify''\<rparr>) \<noteq> ''center''"
          "align ((example_args [72, 105])\<lparr>align := ''justify''\<rparr>) \<noteq> ''right''"
    by simp_all
  have 3: "to_nodes (pack example_ok) (text_str ((example_args [72, 105])\<lparr>align := ''justify''\<rparr>)) \<noteq> []"
    by (simp add: example_args_def to_nodes_def splitlines_def is_linebreak_def)
  from text_validation [of "(example_args [97, 10, 98])\<lparr>anchor := Some ''mb''\<rparr>" example_ok example_session]
       text_validation [of "(example_args [72, 105])\<lparr>align := ''justify''\<rparr>" example_ok example_session]
       1 2 3
  show ?thesis by blast
qed

text \<open>
  With \<open>align\<close> \<open>justify\<close> and a custom emoji in the text, the call raises after it
  has sent the request, written the file of the cache directory and filled the memory
  cache.
\<close>

theorem align_checked_after_fetch_counterexample:
  \<open>PilmojiDrawer_text example_ok
      ((example_args (ustr ''<:rooThink:596576798351949847>''))\<lparr>align := ''justify''\<rparr>) example_session
    = (Inl (ValueError ''align must be "left", "center" or "right"''),
       example_session\<lparr>heap := (heap example_session)(0 := \<lparr>buf = [137, 80, 78, 71], pos = 0, stream_closed = False\<rparr>),
          next_addr := 1,
          files := [''/srv/.cache/discord_596576798351949847.png'' \<mapsto> [137, 80, 78, 71]],
          requests := [''https://cdn.discordapp.com/emojis/596576798351949847.png''],
          discord_emoji_cache := [(596576798351949847, 0)]\<rparr>)
   \<and> requests example_session = [] \<and> files example_session = Map.empty \<and>
     discord_emoji_cache example_session = []\<close>
proof -
  let ?a = "(example_args (ustr ''<:rooThink:596576798351949847>''))\<lparr>align := ''justify''\<rparr>"
  have l: "layout_lines example_ok example_font ?a 1 (0, 0) 10
       [[Node NT_discord_emoji (ustr ''596576798351949847'')]] example_session
     = (Inr [([Some 0], [32, 32], 20)], example_fetched)"
    by (rule example_layout) (simp add: example_args_fields)
  have \<open>PilmojiDrawer_text example_ok ?a example_session
    = (Inl (ValueError ''align must be "left", "center" or "right"''), example_fetched)\<close>
    unfolding PilmojiDrawer_text_def
    by (simp add: example_ok_nodes example_args_fields check_anchor_def no_layout_def
      example_session_fields example_ok_fields example_pil_fields l example_draw Let_def
      del: layout_lines.simps draw_lines.simps)
  then show ?thesis by (simp add: example_fetched_def example_session_fields)
qed

section \<open>A fetch that fails\<close>













subsection \<open>The first error of the first loop is the error of the call\<close>






subsection \<open>A request that is refused\<close>






subsection \<open>A warm session\<close>








section \<open>A hit in the memory cache\<close>

text \<open>
  C7, as the code has it. With caching on, a key of the memory cache whose stream is
  open makes the getter rewind that stream and return it: the result is the cached
  object itself, positioned at the start, and nothing else of the state changes. Every
  caller of the key holds the same stream and shares its read position.
\<close>

theorem cache_hit_returns_the_cached_stream:
  assumes "cache st" "\<not> stream_closed (heap st a)"
  shows "(map_of (emoji_cache st) em = Some a \<longrightarrow>
            get_emoji ev em st = (Inr (Some a), st\<lparr>heap := (heap st)(a := (heap st a)\<lparr>pos := 0\<rparr>)\<rparr>)) \<and>
         (int_of_digits ds = Some i \<and> map_of (discord_emoji_cache st) i = Some a \<longrightarrow>
            get_discord_emoji ev ds st = (Inr (Some a), st\<lparr>heap := (heap st)(a := (heap st a)\<lparr>pos := 0\<rparr>)\<rparr>))"
  using assms by (simp add: get_emoji_def get_discord_emoji_def seek0_def)

theorem cache_hit_returns_the_cached_stream_witness:
  "cache example_filled \<and> \<not> stream_closed (heap example_filled 0) \<and>
   map_of (emoji_cache example_filled) [128512] = Some 0 \<and>
   get_emoji example_ok [128512] example_filled
     = (Inr (Some 0), example_filled\<lparr>heap := (heap example_filled)(0 := (heap example_filled 0)\<lparr>pos := 0\<rparr>)\<rparr>) \<and>
   cache example_fetched \<and> \<not> stream_closed (heap example_fetched 0) \<and>
   int_of_digits (ustr ''596576798351949847'') = Some 596576798351949847 \<and>
   map_of (discord_emoji_cache example_fetched) 596576798351949847 = Some 0 \<and>
   get_discord_emoji example_ok (ustr ''596576798351949847'') example_fetched
     = (Inr (Some 0), example_fetched\<lparr>heap := (heap example_fetched)(0 := (heap example_fetched 0)\<lparr>pos := 0\<rparr>)\<rparr>)"
  using cache_hit_returns_the_cached_stream [of example_filled 0 "[128512]" example_ok "[]" 0]
        cache_hit_returns_the_cached_stream [of example_fetched 0 "[]" example_ok
          "ustr ''596576798351949847''" 596576798351949847]
  by (simp add: example_filled_state example_fetched_def example_session_fields example_id)

text \<open>
  Two callers get the stream at address 0. The first has read it to position 4 when the
  second asks; the call of the second moves the position of that stream back to 0.
\<close>

theorem shared_stream_counterexample:
  "fst example_caller_A = Inr (Some 0) \<and> fst example_caller_B = Inr (Some 0) \<and>
   pos (heap (snd example_A_reads) 0) = 4 \<and> pos (heap (snd example_caller_B) 0) = 0"
  by (simp add: example_caller_A_def example_caller_B_def example_A_reads_def example_filled_state
      get_emoji_def example_session_fields seek0_def read_all_def)

section \<open>Closing the session\<close>

lemma close_streams_heap_only: "close_streams as st = st\<lparr>heap := heap (close_streams as st)\<rparr>"
proof (induction as arbitrary: st)
  case Nil
  then show ?case by (simp add: close_streams_def)
next
  case (Cons a as)
  have "close_streams (a # as) st = close_streams as (stream_close a st)"
    by (simp add: close_streams_def)
  also have "\<dots> = (stream_close a st)\<lparr>heap := heap (close_streams as (stream_close a st))\<rparr>"
    by (rule Cons.IH)
  finally show ?case by (simp add: stream_close_def close_streams_def)
qed

lemma close_streams_fields [simp]:
  "files (close_streams as st) = files st"
  "closed (close_streams as st) = closed st"
  "cache (close_streams as st) = cache st"
  "emoji_cache (close_streams as st) = emoji_cache st"
  "discord_emoji_cache (close_streams as st) = discord_emoji_cache st"
  by (subst close_streams_heap_only, simp)+

lemma cache_inv_init: "cache_inv (init disk cls style c r sc offs)"
  by (simp add: cache_inv_def init_def)

lemma cache_inv_aenter: "cache_inv st \<Longrightarrow> cache_inv (aenter st)"
  by (auto simp: cache_inv_def aenter_def split: source.splits)

lemma cache_inv_get_emoji: "cache_inv st \<Longrightarrow> cache_inv (snd (get_emoji ev em st))"
  using frame0_get_emoji[of ev em st "fst (get_emoji ev em st)" "snd (get_emoji ev em st)"]
  by (simp add: frame0_def)

lemma cache_inv_get_discord_emoji:
  "cache_inv st \<Longrightarrow> cache_inv (snd (get_discord_emoji ev ds st))"
  using frame0_get_discord_emoji[of ev ds st "fst (get_discord_emoji ev ds st)"
      "snd (get_discord_emoji ev ds st)"]
  by (simp add: frame0_def)

text \<open>
  C8. In every session (the memory caches are only written with caching on, which
  \<open>cache_inv\<close> says), a second call of \<open>close\<close> raises: after a first call that
  returned, \<open>ValueError\<close>; after a first call that raised, the state is as before and
  the call raises again. A first call that returns leaves both memory caches empty and
  the files of the cache directory as they were.
\<close>

theorem close_twice:
  assumes "cache_inv st"
  shows "isl (fst (close (snd (close st)))) \<and>
         (\<forall>st'. close st = (Inr (), st') \<longrightarrow>
            close st' = (Inl (ValueError ''Renderer has already been closed.''), st') \<and>
            emoji_cache st' = [] \<and> discord_emoji_cache st' = [] \<and> files st' = files st)"
  using assms by (auto simp: close_def cache_inv_def Let_def)

theorem close_twice_witness:
  "cache_inv example_filled \<and>
   fst (close example_filled) = Inr () \<and>
   fst (close (snd (close example_filled))) = Inl (ValueError ''Renderer has already been closed.'') \<and>
   emoji_cache (snd (close example_filled)) = [] \<and>
   files (snd (close example_filled)) = files example_filled"
proof -
  have c: "cache_inv example_filled"
    by (simp add: cache_inv_def example_filled_state example_session_fields)
  have f: "fst (close example_filled) = Inr ()"
    by (simp add: close_def example_filled_state example_session_fields
        source_has_session_def Let_def)
  then have "close example_filled = (Inr (), snd (close example_filled))"
    by (metis prod.collapse)
  with close_twice [OF c] c f show ?thesis by auto
qed

end
